theory Spec2Isabelle
  imports Main "HOL-Library.Sublist"
begin

section \<open>A shallow embedding of the task-manager API\<close>

text \<open>
  The Express application of \<^verbatim>\<open>src/\<close>: the authentication middleware
  (\<^verbatim>\<open>middleware/authentication.js\<close>), the user model with its hooks, the user
  router and the task router. A handler is a function from the request and the stored
  data to the reply and the new stored data. What the code takes from npm packages
  (jsonwebtoken, bcryptjs, validator, the casts of Mongoose, sharp) is a parameter, the
  record \<open>library\<close>; what it takes from the run (a new ObjectId, the clock, a salt) is
  the record \<open>ambient\<close>. Failures of the storage itself (a lost connection) and the
  bookkeeping fields of Mongoose (timestamps, \<^verbatim>\<open>__v\<close>, the ids of subdocuments) are
  outside the model.
\<close>

subsection \<open>JavaScript strings\<close>

text \<open>\<^verbatim>\<open>String.prototype.trim\<close>, on the ASCII white space.\<close>

definition isWhiteSpace :: "char \<Rightarrow> bool" where
  "isWhiteSpace c = (c = CHR '' '' \<or> c = CHR 0x09 \<or> c = CHR 0x0A \<or> c = CHR 0x0B
     \<or> c = CHR 0x0C \<or> c = CHR 0x0D)"

definition trim :: "string \<Rightarrow> string" where
  "trim s = rev (dropWhile isWhiteSpace (rev (dropWhile isWhiteSpace s)))"

text \<open>\<^verbatim>\<open>String.prototype.toLowerCase\<close>, on the ASCII letters.\<close>

definition lowerChar :: "char \<Rightarrow> char" where
  "lowerChar c = (let n = (of_char c :: nat) in if 65 \<le> n \<and> n \<le> 90 then char_of (n + 32) else c)"

definition toLowerCase :: "string \<Rightarrow> string" where
  "toLowerCase s = map lowerChar s"

text \<open>\<^verbatim>\<open>s.includes(pat)\<close>: \<open>pat\<close> occurs somewhere in \<open>s\<close>.\<close>

fun includesStr :: "string \<Rightarrow> string \<Rightarrow> bool" where
  "includesStr [] pat = (pat = [])"
| "includesStr (c # cs) pat = (prefix pat (c # cs) \<or> includesStr cs pat)"

text \<open>
  \<^verbatim>\<open>s.replace(pat, rep)\<close> with a string pattern: the first occurrence of \<open>pat\<close>,
  wherever it stands, is replaced; a string without \<open>pat\<close> is returned as it is.
\<close>

fun replace :: "string \<Rightarrow> string \<Rightarrow> string \<Rightarrow> string" where
  "replace [] pat rep = (if pat = [] then rep else [])"
| "replace (c # cs) pat rep =
     (if prefix pat (c # cs) then rep @ drop (length pat) (c # cs)
      else c # replace cs pat rep)"

text \<open>\<^verbatim>\<open>s.split(sep)\<close> with a one-character separator.\<close>

fun split :: "char \<Rightarrow> string \<Rightarrow> string list" where
  "split sep [] = [[]]"
| "split sep (c # cs) =
     (if c = sep then [] # split sep cs
      else (case split sep cs of [] \<Rightarrow> [[c]] | p # ps \<Rightarrow> (c # p) # ps))"

subsection \<open>Values, requests and replies\<close>

datatype json =
    JNull
  | JBool bool
  | JNum int
  | JStr string
  | JArr "json list"
  | JObj "(string \<times> json) list"

text \<open>
  The parts of an Express request the handlers read: the Authorization header
  (\<open>None\<close>: the header is not sent), \<^verbatim>\<open>req.params.id\<close>, the parsed JSON body as
  its list of keys and values (\<^verbatim>\<open>Object.keys\<close> is \<open>map fst\<close>), the query string
  and the uploaded file (its original name and its bytes).
\<close>

record request =
  authorization :: "string option"
  params_id :: string
  body :: "(string \<times> json) list"
  query :: "(string \<times> string) list"
  req_file :: "(string \<times> string) option"

text \<open>\<^verbatim>\<open>req.body[key]\<close>, read for a key of the body.\<close>

definition bodyValue :: "request \<Rightarrow> string \<Rightarrow> json" where
  "bodyValue req k = (case map_of (body req) k of None \<Rightarrow> JNull | Some v \<Rightarrow> v)"

record user =
  uid :: nat
  name :: string
  email :: string
  password :: string
  age :: "int option"
  tokens :: "string list"
  avatar :: "string option"

record task =
  tid :: nat
  description :: string
  completed :: "bool option"
  owner :: nat

datatype error =
    ValidationError "string list"
  | DuplicateKey
  | CastError
  | UnableToLogin

datatype payload =
    NoBody
  | Json json
  | TaskBody task
  | TaskList "task list"
  | ErrorBody error
  | Image string

text \<open>
  What the client gets: a status with a body, or nothing at all when an \<^verbatim>\<open>async\<close>
  handler throws outside a \<^verbatim>\<open>try\<close>.
\<close>

datatype reply = Reply nat payload | NoReply

text \<open>
  Modelled from the spec: \<^verbatim>\<open>emails/account.js\<close> is not among the sources. The spec
  has transactional emails sent on account lifecycle events, fire-and-forget; a sent
  mail is an entry of the outbox, with the address and the name it is called with.
\<close>

datatype mail = Welcome string string | Cancellation string string

record world =
  users :: "user list"
  tasks :: "task list"
  outbox :: "mail list"

subsection \<open>The packages and the run\<close>

text \<open>
  \<open>jwt_sign i iat secret\<close> is \<^verbatim>\<open>jwt.sign({ _id: i }, secret)\<close> at the time \<open>iat\<close>;
  \<open>jwt_verify token secret\<close> is the \<^verbatim>\<open>_id\<close> of the decoded token, \<open>None\<close> when
  \<^verbatim>\<open>jwt.verify\<close> throws. \<open>bcrypt_hash p rounds salt\<close> is \<^verbatim>\<open>bcrypt.hash(p, rounds)\<close>
  with the salt it draws. A cast is \<open>None\<close> when Mongoose raises a CastError.
  \<open>emailQuery\<close> is the filter \<^verbatim>\<open>{ email: v }\<close> for a value that is not a string,
  \<open>queryOptions\<close> the limit, skip and sort of a populate (\<open>None\<close>: the query fails),
  \<open>parseInt\<close> is \<open>None\<close> for NaN, \<open>sharp\<close> is the resize to 250 by 250 and the
  conversion to PNG (\<open>None\<close>: not an image).
\<close>

record library =
  JWT_SECRET :: string
  jwt_sign :: "string \<Rightarrow> nat \<Rightarrow> string \<Rightarrow> string"
  jwt_verify :: "string \<Rightarrow> string \<Rightarrow> string option"
  bcrypt_hash :: "string \<Rightarrow> nat \<Rightarrow> string \<Rightarrow> string"
  bcrypt_compare :: "string \<Rightarrow> string \<Rightarrow> bool"
  isEmail :: "string \<Rightarrow> bool"
  toString :: "nat \<Rightarrow> string"
  castObjectId :: "string \<Rightarrow> nat option"
  castString :: "json \<Rightarrow> string option"
  castNumber :: "json \<Rightarrow> int option"
  castBoolean :: "json \<Rightarrow> bool option"
  castTokens :: "json \<Rightarrow> string list option"
  castBuffer :: "json \<Rightarrow> string option"
  emailQuery :: "json option \<Rightarrow> string \<Rightarrow> bool"
  parseInt :: "string option \<Rightarrow> int option"
  queryOptions :: "int option \<Rightarrow> int option \<Rightarrow> (string \<times> int) list \<Rightarrow> task list \<Rightarrow> task list option"
  sharp :: "string \<Rightarrow> string option"

text \<open>
  \<open>freshId\<close> is the \<^verbatim>\<open>_id\<close> a newly constructed document carries (drawn by the
  driver, or the one a body brings along), \<open>now\<close> the clock, \<open>salt\<close> the salt of a
  hashing.
\<close>

record ambient =
  freshId :: nat
  now :: nat
  salt :: string

subsection \<open>Mongoose documents\<close>

text \<open>
  A document in the hands of a handler: its values, whether it was constructed and
  never saved, the paths marked as modified (\<^verbatim>\<open>isModified\<close> reads them) and the
  paths whose assignment raised a CastError or left a required value empty, which the
  validation of the next save reports.
\<close>

record 'a document =
  doc :: 'a
  isNew :: bool
  modifiedPaths :: "string list"
  castErrors :: "string list"

text \<open>A document as a query returns it.\<close>

definition hydrate :: "'a \<Rightarrow> 'a document" where
  "hydrate x = \<lparr>doc = x, isNew = False, modifiedPaths = [], castErrors = []\<rparr>"

definition isModified :: "'a document \<Rightarrow> string \<Rightarrow> bool" where
  "isModified d p = (p \<in> set (modifiedPaths d))"

text \<open>
  An assignment \<^verbatim>\<open>doc[p] = v\<close>: the path is marked as modified when the document
  is new or the value differs from the one it had.
\<close>

definition setPath :: "string \<Rightarrow> ('a \<Rightarrow> 'a) \<Rightarrow> 'a document \<Rightarrow> 'a document" where
  "setPath p f d =
     (if isNew d \<or> f (doc d) \<noteq> doc d
      then d\<lparr>doc := f (doc d), modifiedPaths := p # modifiedPaths d\<rparr>
      else d)"

definition invalidate :: "string \<Rightarrow> 'a document \<Rightarrow> 'a document" where
  "invalidate p d = d\<lparr>castErrors := p # castErrors d\<rparr>"

text \<open>The paths a save validates: all of a new document, the modified ones otherwise.\<close>

definition validated :: "'a document \<Rightarrow> string \<Rightarrow> bool" where
  "validated d p = (isNew d \<or> isModified d p)"

text \<open>A required string: \<^verbatim>\<open>null\<close> is no value, so the path fails its validation.\<close>

definition stringValue :: "library \<Rightarrow> json \<Rightarrow> string option" where
  "stringValue L v = (if v = JNull then None else castString L v)"

subsection \<open>The user model\<close>

text \<open>
  \<^verbatim>\<open>userSchema\<close> (part_002, lines 12 to 66): the setters of the paths. \<^verbatim>\<open>name\<close> and
  \<^verbatim>\<open>password\<close> are trimmed, \<^verbatim>\<open>email\<close> is trimmed and lowercased, \<^verbatim>\<open>age\<close> may be
  \<^verbatim>\<open>null\<close>. A key that is no path of the schema is ignored.
\<close>

definition setUserPath :: "library \<Rightarrow> string \<Rightarrow> json \<Rightarrow> user document \<Rightarrow> user document" where
  "setUserPath L k v d =
     (if k = ''name'' then
        (case stringValue L v of
           None \<Rightarrow> invalidate ''name'' d
         | Some s \<Rightarrow> setPath ''name'' (\<lambda>u. u\<lparr>name := trim s\<rparr>) d)
      else if k = ''email'' then
        (case stringValue L v of
           None \<Rightarrow> invalidate ''email'' d
         | Some s \<Rightarrow> setPath ''email'' (\<lambda>u. u\<lparr>email := trim (toLowerCase s)\<rparr>) d)
      else if k = ''password'' then
        (case stringValue L v of
           None \<Rightarrow> invalidate ''password'' d
         | Some s \<Rightarrow> setPath ''password'' (\<lambda>u. u\<lparr>password := trim s\<rparr>) d)
      else if k = ''age'' then
        (if v = JNull then setPath ''age'' (\<lambda>u. u\<lparr>age := None\<rparr>) d
         else (case castNumber L v of
           None \<Rightarrow> invalidate ''age'' d
         | Some n \<Rightarrow> setPath ''age'' (\<lambda>u. u\<lparr>age := Some n\<rparr>) d))
      else if k = ''tokens'' then
        (case castTokens L v of
           None \<Rightarrow> invalidate ''tokens'' d
         | Some ts \<Rightarrow> setPath ''tokens'' (\<lambda>u. u\<lparr>tokens := ts\<rparr>) d)
      else if k = ''avatar'' then
        (if v = JNull then setPath ''avatar'' (\<lambda>u. u\<lparr>avatar := None\<rparr>) d
         else (case castBuffer L v of
           None \<Rightarrow> invalidate ''avatar'' d
         | Some b \<Rightarrow> setPath ''avatar'' (\<lambda>u. u\<lparr>avatar := Some b\<rparr>) d))
      else d)"

text \<open>
  \<^verbatim>\<open>new User(obj)\<close>: the defaults of the schema (\<^verbatim>\<open>age\<close> is 0, no token), then
  every key of \<open>obj\<close> assigned. A required string that is never assigned stays
  empty, which the required validator refuses like a missing one.
\<close>

definition newUser :: "library \<Rightarrow> nat \<Rightarrow> (string \<times> json) list \<Rightarrow> user document" where
  "newUser L i obj =
     foldl (\<lambda>d (k, v). setUserPath L k v d)
       \<lparr>doc = \<lparr>uid = i, name = [], email = [], password = [], age = Some 0,
                   tokens = [], avatar = None\<rparr>,
        isNew = True, modifiedPaths = [], castErrors = []\<rparr>
       obj"

text \<open>
  The validators of the schema: \<^verbatim>\<open>required\<close> (a non-empty string), \<^verbatim>\<open>isEmail\<close>,
  \<^verbatim>\<open>minlength: 7\<close> and the ban on the word password, the sign of the age, a token
  for every entry of \<^verbatim>\<open>tokens\<close>.
\<close>

definition validUserPath :: "library \<Rightarrow> user \<Rightarrow> string \<Rightarrow> bool" where
  "validUserPath L u p =
     (if p = ''name'' then name u \<noteq> []
      else if p = ''email'' then email u \<noteq> [] \<and> isEmail L (email u)
      else if p = ''password'' then
        password u \<noteq> [] \<and> 7 \<le> length (password u)
        \<and> \<not> includesStr (toLowerCase (password u)) ''password''
      else if p = ''age'' then (case age u of None \<Rightarrow> True | Some n \<Rightarrow> \<not> n < 0)
      else if p = ''tokens'' then list_all (\<lambda>t. t \<noteq> []) (tokens u)
      else True)"

text \<open>The paths a save reports; the save goes on when there is none.\<close>

definition validateUser :: "library \<Rightarrow> user document \<Rightarrow> string list" where
  "validateUser L d =
     castErrors d @
     filter (\<lambda>p. validated d p \<and> \<not> validUserPath L (doc d) p)
       [''name'', ''email'', ''password'', ''age'', ''tokens'']"

text \<open>
  \<^verbatim>\<open>userSchema.pre('save')\<close> (part_002, lines 167 to 175). The assignment of the
  hash goes through the setter of the path, which trims.
\<close>

definition preSave :: "library \<Rightarrow> string \<Rightarrow> user document \<Rightarrow> user document" where
  "preSave L s d =
     (if isModified d ''password''
      then d\<lparr>doc := (doc d)\<lparr>password := trim (bcrypt_hash L (password (doc d)) 8 s)\<rparr>\<rparr>
      else d)"

text \<open>
  \<^verbatim>\<open>user.save()\<close>: the validation (the first of the pre-save hooks), the hook above,
  then the insert of a new document or the update of a stored one. The collection
  refuses a second document with an \<^verbatim>\<open>_id\<close>, and the unique index a second one with
  an email. A saved document has no modified path left.
\<close>

definition saveUser :: "library \<Rightarrow> string \<Rightarrow> user document \<Rightarrow> world \<Rightarrow> error + user document \<times> world" where
  "saveUser L s d w =
     (case validateUser L d of
        p # ps \<Rightarrow> Inl (ValidationError (p # ps))
      | [] \<Rightarrow>
        (let d1 = preSave L s d; u = doc d1 in
         if isNew d1 then
           (if uid u \<in> set (map uid (users w)) \<or> email u \<in> set (map email (users w))
            then Inl DuplicateKey
            else Inr (d1\<lparr>isNew := False, modifiedPaths := []\<rparr>, w\<lparr>users := users w @ [u]\<rparr>))
         else if modifiedPaths d1 = [] then Inr (d1, w)
         else if isModified d1 ''email''
                 \<and> email u \<in> set (map email (filter (\<lambda>x. uid x \<noteq> uid u) (users w)))
           then Inl DuplicateKey
         else Inr (d1\<lparr>modifiedPaths := []\<rparr>,
                   w\<lparr>users := map (\<lambda>x. if uid x = uid u then u else x) (users w)\<rparr>)))"

text \<open>
  \<^verbatim>\<open>userSchema.methods.toJSON\<close> (part_002, lines 89 to 98): the object of the
  document without \<^verbatim>\<open>password\<close>, \<^verbatim>\<open>tokens\<close> and \<^verbatim>\<open>avatar\<close>.
\<close>

definition toObject :: "library \<Rightarrow> user \<Rightarrow> (string \<times> json) list" where
  "toObject L u =
     [(''_id'', JStr (toString L (uid u))),
      (''name'', JStr (name u)),
      (''email'', JStr (email u)),
      (''password'', JStr (password u)),
      (''age'', (case age u of None \<Rightarrow> JNull | Some n \<Rightarrow> JNum n)),
      (''tokens'', JArr (map (\<lambda>t. JObj [(''token'', JStr t)]) (tokens u))),
      (''avatar'', (case avatar u of None \<Rightarrow> JNull | Some b \<Rightarrow> JStr b))]"

definition delete :: "string \<Rightarrow> (string \<times> json) list \<Rightarrow> (string \<times> json) list" where
  "delete k obj = filter (\<lambda>kv. fst kv \<noteq> k) obj"

definition toJSON :: "library \<Rightarrow> user \<Rightarrow> json" where
  "toJSON L u = JObj (delete ''avatar'' (delete ''tokens'' (delete ''password'' (toObject L u))))"

text \<open>\<^verbatim>\<open>userSchema.methods.generateAuthToken\<close> (part_002, lines 120 to 128).\<close>

definition generateAuthToken ::
  "library \<Rightarrow> ambient \<Rightarrow> user document \<Rightarrow> world \<Rightarrow> error + string \<times> user document \<times> world" where
  "generateAuthToken L a d w =
     (let token = jwt_sign L (toString L (uid (doc d))) (now a) (JWT_SECRET L);
          d1 = setPath ''tokens'' (\<lambda>u. u\<lparr>tokens := tokens u @ [token]\<rparr>) d
      in case saveUser L (salt a) d1 w of
           Inl e \<Rightarrow> Inl e
         | Inr (d2, w2) \<Rightarrow> Inr (token, d2, w2))"

text \<open>
  \<^verbatim>\<open>userSchema.statics.findByCredentials\<close> (part_002, lines 132 to 146). The filter
  of the query is cast with the setters of the path, like an assigned value;
  \<^verbatim>\<open>bcrypt.compare\<close> gets the password as the request has it, and throws when it is
  no string.
\<close>

definition findByCredentials :: "library \<Rightarrow> world \<Rightarrow> json option \<Rightarrow> json option \<Rightarrow> error + user" where
  "findByCredentials L w e p =
     (case find (\<lambda>u. case e of
                       Some (JStr s) \<Rightarrow> email u = trim (toLowerCase s)
                     | _ \<Rightarrow> emailQuery L e (email u)) (users w) of
        None \<Rightarrow> Inl UnableToLogin
      | Some u \<Rightarrow>
        (case p of
           Some (JStr s) \<Rightarrow> if bcrypt_compare L s (password u) then Inr u else Inl UnableToLogin
         | _ \<Rightarrow> Inl UnableToLogin))"

text \<open>
  \<^verbatim>\<open>userSchema.pre('remove')\<close> (part_002, lines 181 to 185), and \<^verbatim>\<open>user.remove()\<close>,
  which runs the hook and then deletes the document.
\<close>

definition preRemove :: "user \<Rightarrow> world \<Rightarrow> world" where
  "preRemove u w = w\<lparr>tasks := filter (\<lambda>t. owner t \<noteq> uid u) (tasks w)\<rparr>"

definition remove :: "user \<Rightarrow> world \<Rightarrow> world" where
  "remove u w = (let w1 = preRemove u w in w1\<lparr>users := filter (\<lambda>x. uid x \<noteq> uid u) (users w1)\<rparr>)"

subsection \<open>The task model\<close>

text \<open>
  \<^verbatim>\<open>taskSchema\<close> (models/task.js): \<^verbatim>\<open>description\<close> is required and trimmed,
  \<^verbatim>\<open>completed\<close> is a Boolean or \<^verbatim>\<open>null\<close>. The owner is not among the paths a
  body can assign: see \<open>newTask\<close>.
\<close>

definition setTaskPath :: "library \<Rightarrow> string \<Rightarrow> json \<Rightarrow> task document \<Rightarrow> task document" where
  "setTaskPath L k v d =
     (if k = ''description'' then
        (case stringValue L v of
           None \<Rightarrow> invalidate ''description'' d
         | Some s \<Rightarrow> setPath ''description'' (\<lambda>t. t\<lparr>description := trim s\<rparr>) d)
      else if k = ''completed'' then
        (if v = JNull then setPath ''completed'' (\<lambda>t. t\<lparr>completed := None\<rparr>) d
         else (case castBoolean L v of
           None \<Rightarrow> invalidate ''completed'' d
         | Some b \<Rightarrow> setPath ''completed'' (\<lambda>t. t\<lparr>completed := Some b\<rparr>) d))
      else d)"

text \<open>
  \<^verbatim>\<open>new Task({ ...req.body, owner: o })\<close>: in the object literal the key
  \<^verbatim>\<open>owner\<close> stands after the spread, so an \<^verbatim>\<open>owner\<close> of the body is overwritten
  before the constructor reads the object. The constructor gets the other keys of the
  body and the owner \<open>o\<close>.
\<close>

definition newTask :: "library \<Rightarrow> nat \<Rightarrow> (string \<times> json) list \<Rightarrow> nat \<Rightarrow> task document" where
  "newTask L i obj ow =
     foldl (\<lambda>d (k, v). setTaskPath L k v d)
       \<lparr>doc = \<lparr>tid = i, description = [], completed = Some False, owner = ow\<rparr>,
        isNew = True, modifiedPaths = [''owner''], castErrors = []\<rparr>
       (filter (\<lambda>kv. fst kv \<noteq> ''owner'') obj)"

definition validateTask :: "task document \<Rightarrow> string list" where
  "validateTask d =
     castErrors d @
     filter (\<lambda>p. validated d p \<and> description (doc d) = []) [''description'']"

text \<open>\<^verbatim>\<open>task.save()\<close>: validation, then the insert or the update.\<close>

definition saveTask :: "task document \<Rightarrow> world \<Rightarrow> error + task document \<times> world" where
  "saveTask d w =
     (case validateTask d of
        p # ps \<Rightarrow> Inl (ValidationError (p # ps))
      | [] \<Rightarrow>
        (let t = doc d in
         if isNew d then
           (if tid t \<in> set (map tid (tasks w)) then Inl DuplicateKey
            else Inr (d\<lparr>isNew := False, modifiedPaths := []\<rparr>, w\<lparr>tasks := tasks w @ [t]\<rparr>))
         else if modifiedPaths d = [] then Inr (d, w)
         else Inr (d\<lparr>modifiedPaths := []\<rparr>,
                   w\<lparr>tasks := map (\<lambda>x. if tid x = tid t then t else x) (tasks w)\<rparr>)))"

text \<open>
  \<^verbatim>\<open>Task.findOne({ _id: id, owner: o })\<close>: the id of the request is cast to an
  ObjectId first, and a string that is none raises a CastError.
\<close>

definition findOneTask :: "library \<Rightarrow> world \<Rightarrow> string \<Rightarrow> nat \<Rightarrow> error + task option" where
  "findOneTask L w i ow =
     (case castObjectId L i of
        None \<Rightarrow> Inl CastError
      | Some n \<Rightarrow> Inr (find (\<lambda>t. tid t = n \<and> owner t = ow) (tasks w)))"

subsection \<open>The authentication middleware\<close>

definition unauthorized :: reply where
  "unauthorized = Reply 401 (Json (JObj [(''error'', JStr ''Please authenticate.'')]))"

text \<open>
  \<^verbatim>\<open>auth\<close> (middleware/authentication.js, lines 31 to 48). Every throw of the
  \<^verbatim>\<open>try\<close> block ends in the one \<^verbatim>\<open>catch\<close>: the missing header (\<^verbatim>\<open>replace\<close> of
  \<^verbatim>\<open>undefined\<close>), the token \<^verbatim>\<open>jwt.verify\<close> refuses, the decoded id that is no
  ObjectId, the query that finds no user. \<open>Inr\<close> is the call of \<^verbatim>\<open>next()\<close> with
  \<^verbatim>\<open>req.token\<close> and \<^verbatim>\<open>req.user\<close>.
\<close>

definition auth :: "library \<Rightarrow> world \<Rightarrow> request \<Rightarrow> reply + string \<times> user" where
  "auth L w req =
     (case authorization req of
        None \<Rightarrow> Inl unauthorized
      | Some h \<Rightarrow>
        (let token = replace h ''Bearer '' [] in
         case jwt_verify L token (JWT_SECRET L) of
           None \<Rightarrow> Inl unauthorized
         | Some decoded \<Rightarrow>
           (case castObjectId L decoded of
              None \<Rightarrow> Inl unauthorized
            | Some i \<Rightarrow>
              (case find (\<lambda>u. uid u = i \<and> token \<in> set (tokens u)) (users w) of
                 None \<Rightarrow> Inl unauthorized
               | Some u \<Rightarrow> Inr (token, u)))))"

text \<open>
  A route registered as \<^verbatim>\<open>router.METHOD(path, auth, handler)\<close>: the handler runs
  only after \<^verbatim>\<open>next()\<close>, with the token and the user of the middleware.
\<close>

definition withAuth ::
  "library \<Rightarrow> world \<Rightarrow> request \<Rightarrow> (string \<Rightarrow> user document \<Rightarrow> reply \<times> world) \<Rightarrow> reply \<times> world" where
  "withAuth L w req handler =
     (case auth L w req of
        Inl r \<Rightarrow> (r, w)
      | Inr (token, u) \<Rightarrow> handler token (hydrate u))"

subsection \<open>The user router\<close>

definition invalidUpdates :: reply where
  "invalidUpdates = Reply 400 (Json (JObj [(''error'', JStr ''Invalid updates!'')]))"

definition userAndToken :: "library \<Rightarrow> user \<Rightarrow> string \<Rightarrow> payload" where
  "userAndToken L u token = Json (JObj [(''user'', toJSON L u), (''token'', JStr token)])"

text \<open>\<^verbatim>\<open>router.post('/users')\<close> (part_001, lines 10 to 22).\<close>

definition postUsers :: "library \<Rightarrow> ambient \<Rightarrow> request \<Rightarrow> world \<Rightarrow> reply \<times> world" where
  "postUsers L a req w =
     (let user = newUser L (freshId a) (body req) in
      case generateAuthToken L a user w of
        Inl e \<Rightarrow> (Reply 400 (ErrorBody e), w)
      | Inr (token, user1, w1) \<Rightarrow>
        (let w2 = w1\<lparr>outbox := outbox w1 @ [Welcome (email (doc user1)) (name (doc user1))]\<rparr> in
         case saveUser L (salt a) user1 w2 of
           Inl e \<Rightarrow> (Reply 400 (ErrorBody e), w2)
         | Inr (user2, w3) \<Rightarrow> (Reply 201 (userAndToken L (doc user2) token), w3)))"

text \<open>\<^verbatim>\<open>router.post('/users/login')\<close> (part_001, lines 25 to 34).\<close>

definition postUsersLogin :: "library \<Rightarrow> ambient \<Rightarrow> request \<Rightarrow> world \<Rightarrow> reply \<times> world" where
  "postUsersLogin L a req w =
     (case findByCredentials L w (map_of (body req) ''email'') (map_of (body req) ''password'') of
        Inl e \<Rightarrow> (Reply 400 NoBody, w)
      | Inr u \<Rightarrow>
        (case generateAuthToken L a (hydrate u) w of
           Inl e \<Rightarrow> (Reply 400 NoBody, w)
         | Inr (token, user1, w1) \<Rightarrow> (Reply 200 (userAndToken L (doc user1) token), w1)))"

text \<open>\<^verbatim>\<open>router.post('/users/logout')\<close> (part_001, lines 37 to 49).\<close>

definition postUsersLogout :: "library \<Rightarrow> ambient \<Rightarrow> request \<Rightarrow> world \<Rightarrow> reply \<times> world" where
  "postUsersLogout L a req w =
     withAuth L w req (\<lambda>token user.
       (let user1 = setPath ''tokens'' (\<lambda>u. u\<lparr>tokens := filter (\<lambda>t. t \<noteq> token) (tokens u)\<rparr>) user in
        case saveUser L (salt a) user1 w of
          Inl e \<Rightarrow> (Reply 500 NoBody, w)
        | Inr (user2, w1) \<Rightarrow> (Reply 200 NoBody, w1)))"

text \<open>\<^verbatim>\<open>router.post('/users/logoutAll')\<close> (part_001, lines 52 to 61).\<close>

definition postUsersLogoutAll :: "library \<Rightarrow> ambient \<Rightarrow> request \<Rightarrow> world \<Rightarrow> reply \<times> world" where
  "postUsersLogoutAll L a req w =
     withAuth L w req (\<lambda>token user.
       (let user1 = setPath ''tokens'' (\<lambda>u. u\<lparr>tokens := []\<rparr>) user in
        case saveUser L (salt a) user1 w of
          Inl e \<Rightarrow> (Reply 500 NoBody, w)
        | Inr (user2, w1) \<Rightarrow> (Reply 200 NoBody, w1)))"

text \<open>\<^verbatim>\<open>router.get('/users/me')\<close> (part_001, lines 63 to 65).\<close>

definition getUsersMe :: "library \<Rightarrow> request \<Rightarrow> world \<Rightarrow> reply \<times> world" where
  "getUsersMe L req w =
     withAuth L w req (\<lambda>token user. (Reply 200 (Json (toJSON L (doc user))), w))"

text \<open>\<^verbatim>\<open>router.patch('/users/me')\<close> (part_001, lines 117 to 144).\<close>

definition patchUsersMe :: "library \<Rightarrow> ambient \<Rightarrow> request \<Rightarrow> world \<Rightarrow> reply \<times> world" where
  "patchUsersMe L a req w =
     withAuth L w req (\<lambda>token user.
       (let updates = map fst (body req);
            allowedUpdates = [''name'', ''email'', ''password'', ''age''];
            isValidOperation = list_all (\<lambda>update. update \<in> set allowedUpdates) updates
        in if \<not> isValidOperation then (invalidUpdates, w)
           else
             (let user1 = foldl (\<lambda>d update. setUserPath L update (bodyValue req update) d) user updates in
              case saveUser L (salt a) user1 w of
                Inl e \<Rightarrow> (Reply 400 (ErrorBody e), w)
              | Inr (user2, w1) \<Rightarrow> (Reply 200 (Json (toJSON L (doc user2))), w1))))"

text \<open>\<^verbatim>\<open>router.delete('/users/me')\<close> (part_001, lines 147 to 161).\<close>

definition deleteUsersMe :: "library \<Rightarrow> request \<Rightarrow> world \<Rightarrow> reply \<times> world" where
  "deleteUsersMe L req w =
     withAuth L w req (\<lambda>token user.
       (let w1 = remove (doc user) w;
            w2 = w1\<lparr>outbox := outbox w1 @ [Cancellation (email (doc user)) (name (doc user))]\<rparr>
        in (Reply 200 (Json (toJSON L (doc user))), w2)))"

text \<open>
  The \<^verbatim>\<open>multer\<close> instance \<^verbatim>\<open>upload\<close> (part_001, lines 189 to 199): the filter on
  the name of the file, then the limit on its size. \<open>Inl\<close> is the message of the
  error, \<open>Inr None\<close> a request without the file.
\<close>

definition upload_single :: "(string \<times> string) option \<Rightarrow> string + string option" where
  "upload_single f =
     (case f of
        None \<Rightarrow> Inr None
      | Some (originalname, buffer) \<Rightarrow>
        if \<not> (suffix ''.jpg'' originalname \<or> suffix ''.jpeg'' originalname
               \<or> suffix ''.png'' originalname)
        then Inl ''Please upload a supported image file type.''
        else if 1000000 < length buffer then Inl ''File too large''
        else Inr (Some buffer))"

text \<open>
  \<^verbatim>\<open>router.post('/users/me/avatar')\<close> (part_001, lines 202 to 210). The handler
  has no \<^verbatim>\<open>try\<close>: when \<^verbatim>\<open>req.file\<close> is missing, \<^verbatim>\<open>sharp\<close> rejects or the save
  fails, no reply is sent.
\<close>

definition postUsersMeAvatar :: "library \<Rightarrow> ambient \<Rightarrow> request \<Rightarrow> world \<Rightarrow> reply \<times> world" where
  "postUsersMeAvatar L a req w =
     withAuth L w req (\<lambda>token user.
       (case upload_single (req_file req) of
          Inl message \<Rightarrow> (Reply 400 (Json (JObj [(''error'', JStr message)])), w)
        | Inr None \<Rightarrow> (NoReply, w)
        | Inr (Some b) \<Rightarrow>
          (case sharp L b of
             None \<Rightarrow> (NoReply, w)
           | Some buffer \<Rightarrow>
             (let user1 = setPath ''avatar'' (\<lambda>u. u\<lparr>avatar := Some buffer\<rparr>) user in
              case saveUser L (salt a) user1 w of
                Inl e \<Rightarrow> (NoReply, w)
              | Inr (user2, w1) \<Rightarrow> (Reply 200 NoBody, w1)))))"

text \<open>\<^verbatim>\<open>router.delete('/users/me/avatar')\<close> (part_001, lines 213 to 221).\<close>

definition deleteUsersMeAvatar :: "library \<Rightarrow> ambient \<Rightarrow> request \<Rightarrow> world \<Rightarrow> reply \<times> world" where
  "deleteUsersMeAvatar L a req w =
     withAuth L w req (\<lambda>token user.
       (let user1 = setPath ''avatar'' (\<lambda>u. u\<lparr>avatar := None\<rparr>) user in
        case saveUser L (salt a) user1 w of
          Inl e \<Rightarrow> (Reply 500 NoBody, w)
        | Inr (user2, w1) \<Rightarrow> (Reply 200 NoBody, w1)))"

text \<open>\<^verbatim>\<open>router.get('/users/:id/avatar')\<close> (part_001, lines 224 to 237), without \<^verbatim>\<open>auth\<close>.\<close>

definition getUsersIdAvatar :: "library \<Rightarrow> request \<Rightarrow> world \<Rightarrow> reply \<times> world" where
  "getUsersIdAvatar L req w =
     (case castObjectId L (params_id req) of
        None \<Rightarrow> (Reply 404 NoBody, w)
      | Some i \<Rightarrow>
        (case find (\<lambda>u. uid u = i) (users w) of
           None \<Rightarrow> (Reply 404 NoBody, w)
         | Some u \<Rightarrow>
           (case avatar u of
              None \<Rightarrow> (Reply 404 NoBody, w)
            | Some b \<Rightarrow> (Reply 200 (Image b), w))))"

subsection \<open>The task router\<close>

text \<open>\<^verbatim>\<open>router.post('/tasks')\<close> (routers/task.js, lines 8 to 29).\<close>

definition postTasks :: "library \<Rightarrow> ambient \<Rightarrow> request \<Rightarrow> world \<Rightarrow> reply \<times> world" where
  "postTasks L a req w =
     withAuth L w req (\<lambda>token user.
       (let task = newTask L (freshId a) (body req) (uid (doc user)) in
        case saveTask task w of
          Inl e \<Rightarrow> (Reply 400 (ErrorBody e), w)
        | Inr (task1, w1) \<Rightarrow> (Reply 201 (TaskBody (doc task1)), w1)))"

text \<open>
  \<^verbatim>\<open>router.get('/tasks')\<close> (routers/task.js, lines 59 to 88): the tasks of the
  virtual \<^verbatim>\<open>tasks\<close> are those whose owner is the user, \<^verbatim>\<open>match\<close> narrows them,
  the options order and cut them.
\<close>

definition matchCompleted :: "request \<Rightarrow> bool option" where
  "matchCompleted req =
     (case map_of (query req) ''completed'' of
        None \<Rightarrow> None
      | Some s \<Rightarrow> if s = [] then None else Some (s = ''true''))"

definition sortOf :: "request \<Rightarrow> (string \<times> int) list" where
  "sortOf req =
     (case map_of (query req) ''sortBy'' of
        None \<Rightarrow> []
      | Some s \<Rightarrow>
        if s = [] then []
        else (case split CHR ''_'' s of
                [] \<Rightarrow> []
              | p0 # ps \<Rightarrow>
                [(p0, if (case ps of [] \<Rightarrow> False | p1 # _ \<Rightarrow> p1 = ''desc'') then - 1 else 1)]))"

definition getTasks :: "library \<Rightarrow> request \<Rightarrow> world \<Rightarrow> reply \<times> world" where
  "getTasks L req w =
     withAuth L w req (\<lambda>token user.
       (let found = filter (\<lambda>t. owner t = uid (doc user)
                        \<and> (case matchCompleted req of None \<Rightarrow> True | Some b \<Rightarrow> completed t = Some b))
                      (tasks w)
        in case queryOptions L (parseInt L (map_of (query req) ''limit''))
                  (parseInt L (map_of (query req) ''skip'')) (sortOf req) found of
             None \<Rightarrow> (Reply 500 NoBody, w)
           | Some ts \<Rightarrow> (Reply 200 (TaskList ts), w)))"

text \<open>\<^verbatim>\<open>router.get('/tasks/:id')\<close> (routers/task.js, lines 91 to 107).\<close>

definition getTasksId :: "library \<Rightarrow> request \<Rightarrow> world \<Rightarrow> reply \<times> world" where
  "getTasksId L req w =
     withAuth L w req (\<lambda>token user.
       (case findOneTask L w (params_id req) (uid (doc user)) of
          Inl e \<Rightarrow> (Reply 500 NoBody, w)
        | Inr None \<Rightarrow> (Reply 404 NoBody, w)
        | Inr (Some t) \<Rightarrow> (Reply 200 (TaskBody t), w)))"

text \<open>\<^verbatim>\<open>router.patch('/tasks/:id')\<close> (routers/task.js, lines 110 to 141).\<close>

definition patchTasksId :: "library \<Rightarrow> request \<Rightarrow> world \<Rightarrow> reply \<times> world" where
  "patchTasksId L req w =
     withAuth L w req (\<lambda>token user.
       (let updates = map fst (body req);
            allowedUpdates = [''description'', ''completed''];
            isValidOperation = list_all (\<lambda>update. update \<in> set allowedUpdates) updates
        in if \<not> isValidOperation then (invalidUpdates, w)
           else
             (case findOneTask L w (params_id req) (uid (doc user)) of
                Inl e \<Rightarrow> (Reply 400 (ErrorBody e), w)
              | Inr None \<Rightarrow> (Reply 404 NoBody, w)
              | Inr (Some t) \<Rightarrow>
                (let task1 = foldl (\<lambda>d update. setTaskPath L update (bodyValue req update) d)
                               (hydrate t) updates in
                 case saveTask task1 w of
                   Inl e \<Rightarrow> (Reply 400 (ErrorBody e), w)
                 | Inr (task2, w1) \<Rightarrow> (Reply 200 (TaskBody (doc task2)), w1)))))"

text \<open>
  \<^verbatim>\<open>router.delete('/tasks/:id')\<close> (routers/task.js, lines 144 to 158):
  \<^verbatim>\<open>findOneAndDelete\<close> deletes the document it finds.
\<close>

definition deleteTasksId :: "library \<Rightarrow> request \<Rightarrow> world \<Rightarrow> reply \<times> world" where
  "deleteTasksId L req w =
     withAuth L w req (\<lambda>token user.
       (case findOneTask L w (params_id req) (uid (doc user)) of
          Inl e \<Rightarrow> (Reply 500 NoBody, w)
        | Inr None \<Rightarrow> (Reply 404 NoBody, w)
        | Inr (Some t) \<Rightarrow> (Reply 200 (TaskBody t), w\<lparr>tasks := remove1 t (tasks w)\<rparr>)))"

subsection \<open>The application\<close>

text \<open>The routes of \<^verbatim>\<open>app.use(userRouter)\<close> and \<^verbatim>\<open>app.use(taskRouter)\<close> (part_000).\<close>

datatype route =
    POST_users
  | POST_users_login
  | POST_users_logout
  | POST_users_logoutAll
  | GET_users_me
  | PATCH_users_me
  | DELETE_users_me
  | POST_users_me_avatar
  | DELETE_users_me_avatar
  | GET_users_id_avatar
  | POST_tasks
  | GET_tasks
  | GET_tasks_id
  | PATCH_tasks_id
  | DELETE_tasks_id

fun handle :: "library \<Rightarrow> ambient \<Rightarrow> route \<Rightarrow> request \<Rightarrow> world \<Rightarrow> reply \<times> world" where
  "handle L a POST_users req w = postUsers L a req w"
| "handle L a POST_users_login req w = postUsersLogin L a req w"
| "handle L a POST_users_logout req w = postUsersLogout L a req w"
| "handle L a POST_users_logoutAll req w = postUsersLogoutAll L a req w"
| "handle L a GET_users_me req w = getUsersMe L req w"
| "handle L a PATCH_users_me req w = patchUsersMe L a req w"
| "handle L a DELETE_users_me req w = deleteUsersMe L req w"
| "handle L a POST_users_me_avatar req w = postUsersMeAvatar L a req w"
| "handle L a DELETE_users_me_avatar req w = deleteUsersMeAvatar L a req w"
| "handle L a GET_users_id_avatar req w = getUsersIdAvatar L req w"
| "handle L a POST_tasks req w = postTasks L a req w"
| "handle L a GET_tasks req w = getTasks L req w"
| "handle L a GET_tasks_id req w = getTasksId L req w"
| "handle L a PATCH_tasks_id req w = patchTasksId L req w"
| "handle L a DELETE_tasks_id req w = deleteTasksId L req w"

text \<open>The routes registered with \<^verbatim>\<open>auth\<close>: all but registration, login and the public avatar.\<close>

definition protected :: "route \<Rightarrow> bool" where
  "protected r = (r \<noteq> POST_users \<and> r \<noteq> POST_users_login \<and> r \<noteq> GET_users_id_avatar)"

subsection \<open>An instance for evaluation\<close>

text \<open>
  A small instance of the packages, on which the handlers are evaluated at concrete
  requests: a token is the secret followed by the id and the time, an ObjectId \<open>n\<close>
  prints as \<open>n\<close> letters, a hash ends with the password it was made from.
\<close>

definition refLib :: library where
  "refLib =
     \<lparr>JWT_SECRET = ''secret'',
      jwt_sign = (\<lambda>i iat secret. secret @ ''.'' @ i @ ''.'' @ replicate iat CHR ''x''),
      jwt_verify = (\<lambda>token secret.
        if prefix (secret @ ''.'') token
        then Some (takeWhile (\<lambda>c. c \<noteq> CHR ''.'') (drop (length secret + 1) token))
        else None),
      bcrypt_hash = (\<lambda>p rounds s. ''$'' @ s @ ''$'' @ p),
      bcrypt_compare = (\<lambda>p h. suffix (''$'' @ p) h),
      isEmail = (\<lambda>s. CHR ''@'' \<in> set s),
      toString = (\<lambda>n. replicate n CHR ''a''),
      castObjectId = (\<lambda>s. if s = replicate (length s) CHR ''a'' then Some (length s) else None),
      castString = (\<lambda>v. case v of JStr s \<Rightarrow> Some s | _ \<Rightarrow> None),
      castNumber = (\<lambda>v. case v of JNum n \<Rightarrow> Some n | _ \<Rightarrow> None),
      castBoolean = (\<lambda>v. case v of JBool b \<Rightarrow> Some b | _ \<Rightarrow> None),
      castTokens = (\<lambda>v. None),
      castBuffer = (\<lambda>v. None),
      emailQuery = (\<lambda>v s. False),
      parseInt = (\<lambda>s. None),
      queryOptions = (\<lambda>limit skip sort ts. Some ts),
      sharp = (\<lambda>b. Some b)\<rparr>"

text \<open>Two users with one session each, and a task of the first.\<close>

definition alice :: user where
  "alice = \<lparr>uid = 1, name = ''Alice'', email = ''a@x.com'', password = ''$s$longenough1'',
     age = Some 0, tokens = [''secret.a''], avatar = None\<rparr>"

definition bob :: user where
  "bob = \<lparr>uid = 2, name = ''Bob'', email = ''b@x.com'', password = ''$s$longenough2'',
     age = Some 0, tokens = [''secret.aa''], avatar = None\<rparr>"

definition milk :: task where
  "milk = \<lparr>tid = 3, description = ''buy milk'', completed = Some False, owner = 1\<rparr>"

definition world0 :: world where
  "world0 = \<lparr>users = [alice, bob], tasks = [milk], outbox = []\<rparr>"

definition request0 :: request where
  "request0 = \<lparr>authorization = None, params_id = [], body = [], query = [], req_file = None\<rparr>"

definition ambient0 :: ambient where
  "ambient0 = \<lparr>freshId = 4, now = 0, salt = ''s''\<rparr>"


text \<open>A token that verifies and names no stored user.\<close>

definition strangerRequest :: request where
  "strangerRequest = request0\<lparr>authorization := Some ''Bearer secret.aaaa''\<rparr>"

text \<open>Bob asks for the task of Alice by its id, and patches it with a key outside the allow-list.\<close>

definition foreignGet :: request where
  "foreignGet = request0\<lparr>authorization := Some ''Bearer secret.aa'', params_id := ''aaa'',
     body := [(''completed'', JBool True)]\<rparr>"

definition foreignPatch :: request where
  "foreignPatch = request0\<lparr>authorization := Some ''Bearer secret.aa'', params_id := ''aaa'',
     body := [(''owner'', JStr ''aa'')]\<rparr>"




text \<open>Bob after a second login, at the time 0, and his logout from that session.\<close>

definition bob2 :: user where
  "bob2 = bob\<lparr>tokens := [''secret.aa'', ''secret.aa.'']\<rparr>"

definition world1 :: world where
  "world1 = world0\<lparr>users := [alice, bob2]\<rparr>"

definition logoutRequest :: request where
  "logoutRequest = request0\<lparr>authorization := Some ''Bearer secret.aa.''\<rparr>"

text \<open>The tasks a reply shows to the client.\<close>

definition carried :: "reply \<Rightarrow> task list" where
  "carried r =
     (case r of
        Reply status (TaskBody t) \<Rightarrow> [t]
      | Reply status (TaskList ts) \<Rightarrow> ts
      | _ \<Rightarrow> [])"

text \<open>Alice deletes her account; Bob then lists his tasks and asks for hers.\<close>

definition deleteAlice :: request where
  "deleteAlice = request0\<lparr>authorization := Some ''Bearer secret.a''\<rparr>"

definition world2 :: world where
  "world2 = \<lparr>users = [bob], tasks = [], outbox = [Cancellation ''a@x.com'' ''Alice'']\<rparr>"

section \<open>Properties\<close>

lemmas ref_defs = refLib_def alice_def bob_def milk_def world0_def request0_def ambient0_def

subsection \<open>The guard\<close>

lemma find_SomeD: "find P xs = Some x \<Longrightarrow> x \<in> set xs \<and> P x"
  by (induction xs) (auto split: if_splits)

lemma withAuth_accept: "auth L w req = Inr (token, u) \<Longrightarrow> withAuth L w req h = h token (hydrate u)"
  by (simp add: withAuth_def)

lemma withAuth_reject: "auth L w req = Inl r \<Longrightarrow> withAuth L w req h = (r, w)"
  by (simp add: withAuth_def)

lemma auth_reject_reply: "auth L w req = Inl r \<Longrightarrow> r = unauthorized"
  by (auto simp: auth_def Let_def split: option.splits)

lemma auth_accept_iff:
  "auth L w req = Inr (token, u) \<longleftrightarrow>
     (\<exists>h d i. authorization req = Some h \<and> token = replace h ''Bearer '' []
        \<and> jwt_verify L token (JWT_SECRET L) = Some d \<and> castObjectId L d = Some i
        \<and> find (\<lambda>x. uid x = i \<and> token \<in> set (tokens x)) (users w) = Some u)"
  by (auto simp: auth_def Let_def unauthorized_def split: option.splits)

lemma guard_blocks_route:
  assumes "auth L w req = Inl unauthorized" and "protected r"
  shows "handle L a r req w = (unauthorized, w)"
proof -
  have wa: "withAuth L w req handler = (unauthorized, w)" for handler
    using assms(1) by (rule withAuth_reject)
  from assms(2) show ?thesis
    by (cases r)
       (simp_all add: protected_def wa postUsersLogout_def postUsersLogoutAll_def getUsersMe_def
          patchUsersMe_def deleteUsersMe_def postUsersMeAvatar_def deleteUsersMeAvatar_def
          postTasks_def getTasks_def getTasksId_def patchTasksId_def deleteTasksId_def)
qed

text \<open>
  C3. When the Authorization header is missing, or the token left after the stripping
  does not verify, or its decoded id is no ObjectId, or no stored user with that id
  holds the token (the id is unknown, or the token is not in that user's list), the
  guard answers 401 with the body \<^verbatim>\<open>{ error: "Please authenticate." }\<close>, the same reply
  for every cause; whatever handler stands behind the guard is not run, and every
  protected route gives that reply and leaves the stored data as they were.
\<close>

theorem guard_rejects_uniformly:
  assumes "authorization req = None
     \<or> (\<exists>h. authorization req = Some h
          \<and> (jwt_verify L (replace h ''Bearer '' []) (JWT_SECRET L) = None
             \<or> (\<exists>d. jwt_verify L (replace h ''Bearer '' []) (JWT_SECRET L) = Some d
                  \<and> (castObjectId L d = None
                     \<or> (\<exists>i. castObjectId L d = Some i
                          \<and> (\<forall>u \<in> set (users w).
                                uid u = i \<longrightarrow> replace h ''Bearer '' [] \<notin> set (tokens u)))))))"
  shows "auth L w req = Inl (Reply 401 (Json (JObj [(''error'', JStr ''Please authenticate.'')])))
       \<and> (\<forall>handler. withAuth L w req handler = (unauthorized, w))
       \<and> (\<forall>a r. protected r \<longrightarrow> handle L a r req w = (unauthorized, w))"
proof -
  have rej: "auth L w req = Inl unauthorized"
    using assms by (auto simp: auth_def Let_def split: option.splits dest: find_SomeD)
  have wa: "withAuth L w req handler = (unauthorized, w)" for handler
    using rej by (rule withAuth_reject)
  have "handle L a r req w = (unauthorized, w)" if "protected r" for a r
    using rej that by (rule guard_blocks_route)
  with rej wa show ?thesis by (simp add: unauthorized_def)
qed

theorem guard_rejects_uniformly_witness:
  "authorization strangerRequest = Some ''Bearer secret.aaaa''
   \<and> jwt_verify refLib (replace ''Bearer secret.aaaa'' ''Bearer '' []) (JWT_SECRET refLib) = Some ''aaaa''
   \<and> castObjectId refLib ''aaaa'' = Some 4
   \<and> auth refLib world0 strangerRequest
       = Inl (Reply 401 (Json (JObj [(''error'', JStr ''Please authenticate.'')])))
   \<and> handle refLib ambient0 DELETE_users_me strangerRequest world0 = (unauthorized, world0)
   \<and> handle refLib ambient0 PATCH_tasks_id strangerRequest world0 = (unauthorized, world0)"
proof -
  have h: "authorization strangerRequest = Some ''Bearer secret.aaaa''"
    by (simp add: strangerRequest_def request0_def)
  have v: "jwt_verify refLib (replace ''Bearer secret.aaaa'' ''Bearer '' []) (JWT_SECRET refLib)
             = Some ''aaaa''"
    by (simp add: refLib_def)
  have c: "castObjectId refLib ''aaaa'' = Some 4"
    by (simp add: refLib_def)
  have n: "\<forall>u \<in> set (users world0).
             uid u = 4 \<longrightarrow> replace ''Bearer secret.aaaa'' ''Bearer '' [] \<notin> set (tokens u)"
    by (simp add: world0_def alice_def bob_def)
  have "authorization strangerRequest = None
     \<or> (\<exists>h. authorization strangerRequest = Some h
          \<and> (jwt_verify refLib (replace h ''Bearer '' []) (JWT_SECRET refLib) = None
             \<or> (\<exists>d. jwt_verify refLib (replace h ''Bearer '' []) (JWT_SECRET refLib) = Some d
                  \<and> (castObjectId refLib d = None
                     \<or> (\<exists>i. castObjectId refLib d = Some i
                          \<and> (\<forall>u \<in> set (users world0).
                                uid u = i \<longrightarrow> replace h ''Bearer '' [] \<notin> set (tokens u)))))))"
    using h v c n by blast
  note g = guard_rejects_uniformly [OF this]
  have p: "protected DELETE_users_me" "protected PATCH_tasks_id"
    by (simp_all add: protected_def)
  from g p h v c show ?thesis by blast
qed

subsection \<open>The allow-lists of the patches\<close>




lemma auth_by_token:
  "authorization req = Some h \<Longrightarrow> replace h ''Bearer '' [] = t
   \<Longrightarrow> jwt_verify L t (JWT_SECRET L) = Some d \<Longrightarrow> castObjectId L d = Some i
   \<Longrightarrow> find (\<lambda>x. uid x = i \<and> t \<in> set (tokens x)) (users w) = Some u
   \<Longrightarrow> auth L w req = Inr (t, u)"
  by (auto simp: auth_accept_iff)

lemma auth_reads_header:
  "authorization req' = authorization req \<Longrightarrow> auth L w req' = auth L w req"
  by (simp add: auth_def)

subsection \<open>The stripping of the prefix\<close>

lemma replace_skip:
  "\<not> prefix pat (c # cs) \<Longrightarrow> replace (c # cs) pat rep = c # replace cs pat rep"
  by simp

lemma replace_absent: "CHR '' '' \<notin> set s \<Longrightarrow> replace s ''Bearer '' r = s"
proof (induction s)
  case Nil
  then show ?case by simp
next
  case (Cons c cs)
  have np: "\<not> prefix ''Bearer '' (c # cs)"
  proof
    assume "prefix ''Bearer '' (c # cs)"
    then have "set ''Bearer '' \<subseteq> set (c # cs)" by (rule set_mono_prefix)
    with Cons.prems show False by auto
  qed
  from Cons.prems have "CHR '' '' \<notin> set cs" by simp
  then have "replace cs ''Bearer '' r = cs" by (rule Cons.IH)
  with replace_skip [OF np] show ?case by (simp only:)
qed

text \<open>
  The pattern ends with the only blank it has: in a string that begins with letters
  other than blanks, no occurrence can start before they end.
\<close>

lemma Bearer_not_early:
  assumes "prefix ''Bearer '' (x @ ''Bearer '' @ y)" and "x \<noteq> []"
  shows "CHR '' '' \<in> set x"
proof (rule ccontr)
  assume ns: "CHR '' '' \<notin> set x"
  from assms(1) obtain zs where zs: "x @ ''Bearer '' @ y = ''Bearer '' @ zs"
    by (auto simp: prefix_def)
  then have six: "(x @ ''Bearer '' @ y) ! 6 = CHR '' ''" by simp
  show False
  proof (cases "6 < length x")
    case True
    with six have "x ! 6 = CHR '' ''" by (simp add: nth_append)
    with True ns show False by (metis nth_mem)
  next
    case False
    from assms(2) have "0 < length x" by simp
    with False have "length x = 1 \<or> length x = 2 \<or> length x = 3 \<or> length x = 4
        \<or> length x = 5 \<or> length x = 6"
      by arith
    with six show False
      by (auto simp: nth_append)
  qed
qed

lemma replace_inner_aux:
  assumes "z = ''Bearer '' @ y" and "CHR '' '' \<notin> set x"
  shows "replace (x @ z) ''Bearer '' [] = x @ y"
  using assms(2)
proof (induction x)
  case Nil
  show ?case by (simp add: assms(1))
next
  case (Cons c cs)
  have "\<not> prefix ''Bearer '' ((c # cs) @ z)"
    using Bearer_not_early [of "c # cs" y] Cons.prems assms(1) by blast
  then have np: "\<not> prefix ''Bearer '' (c # (cs @ z))" by simp
  from Cons.prems have "CHR '' '' \<notin> set cs" by simp
  then have ih: "replace (cs @ z) ''Bearer '' [] = cs @ y" by (rule Cons.IH)
  have "replace (c # (cs @ z)) ''Bearer '' [] = c # (cs @ y)"
    using replace_skip [OF np] ih by (simp only:)
  then show ?case by simp
qed

lemma replace_inner:
  "CHR '' '' \<notin> set x \<Longrightarrow> replace (x @ ''Bearer '' @ y) ''Bearer '' [] = x @ y"
  by (rule replace_inner_aux [OF refl])

text \<open>
  C10. The guard replaces the first occurrence of \<^verbatim>\<open>'Bearer '\<close> wherever it stands
  and asks for none. For a token \<open>t\<close> the guard accepts behind the prefix, and that
  has no blank (no JSON Web Token has one), the header that is \<open>t\<close> alone is accepted
  for the same user, and so is a header with the pattern anywhere inside the token.
\<close>

theorem bare_token_accepted:
  assumes "auth L w (req\<lparr>authorization := Some (''Bearer '' @ t)\<rparr>) = Inr (t, u)"
      and "CHR '' '' \<notin> set t"
  shows "auth L w (req\<lparr>authorization := Some t\<rparr>) = Inr (t, u)
       \<and> (\<forall>x y. t = x @ y \<longrightarrow>
             auth L w (req\<lparr>authorization := Some (x @ ''Bearer '' @ y)\<rparr>) = Inr (t, u))"
proof -
  from assms(1) obtain d i where
    v: "jwt_verify L t (JWT_SECRET L) = Some d" and c: "castObjectId L d = Some i"
    and f: "find (\<lambda>x. uid x = i \<and> t \<in> set (tokens x)) (users w) = Some u"
    by (auto simp: auth_accept_iff)
  have r1: "replace t ''Bearer '' [] = t"
    using assms(2) by (rule replace_absent)
  have a1: "auth L w (req\<lparr>authorization := Some t\<rparr>) = Inr (t, u)"
    by (rule auth_by_token [OF _ r1 v c f]) simp
  have a2: "auth L w (req\<lparr>authorization := Some (x @ ''Bearer '' @ y)\<rparr>) = Inr (t, u)"
    if "t = x @ y" for x y
  proof -
    from that assms(2) have "CHR '' '' \<notin> set x" by simp
    then have "replace (x @ ''Bearer '' @ y) ''Bearer '' [] = x @ y"
      by (rule replace_inner)
    with that have "replace (x @ ''Bearer '' @ y) ''Bearer '' [] = t"
      by (simp only:)
    then show ?thesis
      by (rule auth_by_token [OF _ _ v c f, rotated]) simp
  qed
  from a1 a2 show ?thesis by blast
qed

theorem bare_token_accepted_witness:
  "auth refLib world0 (request0\<lparr>authorization := Some ''Bearer secret.a''\<rparr>) = Inr (''secret.a'', alice)
   \<and> CHR '' '' \<notin> set ''secret.a''
   \<and> auth refLib world0 (request0\<lparr>authorization := Some ''secret.a''\<rparr>) = Inr (''secret.a'', alice)
   \<and> auth refLib world0 (request0\<lparr>authorization := Some ''secBearer ret.a''\<rparr>)
       = Inr (''secret.a'', alice)"
proof -
  have h1: "auth refLib world0 (request0\<lparr>authorization := Some (''Bearer '' @ ''secret.a'')\<rparr>)
              = Inr (''secret.a'', alice)"
    by (simp add: auth_def Let_def ref_defs)
  have h2: "CHR '' '' \<notin> set ''secret.a''" by simp
  note th = bare_token_accepted [OF h1 h2]
  from th have a1: "auth refLib world0 (request0\<lparr>authorization := Some ''secret.a''\<rparr>)
                      = Inr (''secret.a'', alice)"
    by (rule conjunct1)
  from th have "''secret.a'' = ''sec'' @ ''ret.a'' \<longrightarrow>
      auth refLib world0 (request0\<lparr>authorization := Some (''sec'' @ ''Bearer '' @ ''ret.a'')\<rparr>)
        = Inr (''secret.a'', alice)"
    by blast
  then have a2: "auth refLib world0 (request0\<lparr>authorization := Some ''secBearer ret.a''\<rparr>)
                   = Inr (''secret.a'', alice)"
    by simp
  from h1 h2 a1 a2 show ?thesis by simp
qed

subsection \<open>The tasks of another user\<close>

lemma distinct_map_eq:
  "distinct (map f xs) \<Longrightarrow> x \<in> set xs \<Longrightarrow> y \<in> set xs \<Longrightarrow> f x = f y \<Longrightarrow> x = y"
  by (auto simp: distinct_map inj_on_def)

lemma findOneTask_foreign:
  assumes "t \<in> set (tasks w)" and "owner t \<noteq> b" and "castObjectId L i = Some (tid t)"
      and "distinct (map tid (tasks w))"
  shows "findOneTask L w i b = Inr None"
proof -
  have "\<not> (tid x = tid t \<and> owner x = b)" if "x \<in> set (tasks w)" for x
    using distinct_map_eq [OF assms(4) that assms(1)] assms(2) by auto
  then have "find (\<lambda>x. tid x = tid t \<and> owner x = b) (tasks w) = None"
    by (simp add: find_None_iff)
  with assms(3) show ?thesis by (simp add: findOneTask_def)
qed

lemma findOneTask_absent:
  assumes "castObjectId L i = Some n" and "n \<notin> set (map tid (tasks w))"
  shows "findOneTask L w i b = Inr None"
proof -
  from assms(2) have "find (\<lambda>x. tid x = n \<and> owner x = b) (tasks w) = None"
    by (auto simp: find_None_iff)
  with assms(1) show ?thesis by (simp add: findOneTask_def)
qed

text \<open>
  C1, as the code has it. A user \<open>b\<close> who sends the id of a task of another user
  gets 404 without a body from GET and from DELETE. From PATCH the reply is that 404
  when every key of the body is in the allow-list, and the 400 of the allow-list
  otherwise, since the handler tests the keys before it looks for the task. In each
  case the stored data stay as they were, and the reply is the one for an id that no
  task has.
\<close>

theorem foreign_task_not_found:
  assumes "auth L w req = Inr (token, b)"
      and "t \<in> set (tasks w)" and "owner t \<noteq> uid b"
      and "castObjectId L (params_id req) = Some (tid t)"
      and "distinct (map tid (tasks w))"
  shows "getTasksId L req w = (Reply 404 NoBody, w)
       \<and> deleteTasksId L req w = (Reply 404 NoBody, w)
       \<and> patchTasksId L req w =
           (if list_all (\<lambda>k. k \<in> set [''description'', ''completed'']) (map fst (body req))
            then Reply 404 NoBody
            else Reply 400 (Json (JObj [(''error'', JStr ''Invalid updates!'')])), w)
       \<and> (\<forall>i n. castObjectId L i = Some n \<and> n \<notin> set (map tid (tasks w)) \<longrightarrow>
             getTasksId L (req\<lparr>params_id := i\<rparr>) w = getTasksId L req w
           \<and> deleteTasksId L (req\<lparr>params_id := i\<rparr>) w = deleteTasksId L req w
           \<and> patchTasksId L (req\<lparr>params_id := i\<rparr>) w = patchTasksId L req w)"
proof -
  have none: "findOneTask L w (params_id req) (uid b) = Inr None"
    using assms(2-5) by (rule findOneTask_foreign)
  have g: "getTasksId L req w = (Reply 404 NoBody, w)"
    using assms(1) none by (simp add: getTasksId_def withAuth_accept hydrate_def)
  have d: "deleteTasksId L req w = (Reply 404 NoBody, w)"
    using assms(1) none by (simp add: deleteTasksId_def withAuth_accept hydrate_def)
  have p: "patchTasksId L req w =
           (if list_all (\<lambda>k. k \<in> set [''description'', ''completed'']) (map fst (body req))
            then Reply 404 NoBody
            else Reply 400 (Json (JObj [(''error'', JStr ''Invalid updates!'')])), w)"
    using assms(1) none
    by (simp add: patchTasksId_def withAuth_accept hydrate_def invalidUpdates_def)
  have other: "getTasksId L (req\<lparr>params_id := i\<rparr>) w = getTasksId L req w
           \<and> deleteTasksId L (req\<lparr>params_id := i\<rparr>) w = deleteTasksId L req w
           \<and> patchTasksId L (req\<lparr>params_id := i\<rparr>) w = patchTasksId L req w"
    if "castObjectId L i = Some n" and "n \<notin> set (map tid (tasks w))" for i n
  proof -
    have a: "auth L w (req\<lparr>params_id := i\<rparr>) = Inr (token, b)"
      using assms(1) auth_reads_header [of "req\<lparr>params_id := i\<rparr>" req L w] by simp
    have none': "findOneTask L w (params_id (req\<lparr>params_id := i\<rparr>)) (uid b) = Inr None"
      using findOneTask_absent [OF that] by simp
    have "getTasksId L (req\<lparr>params_id := i\<rparr>) w = (Reply 404 NoBody, w)"
      using a none' by (simp add: getTasksId_def withAuth_accept hydrate_def)
    moreover have "deleteTasksId L (req\<lparr>params_id := i\<rparr>) w = (Reply 404 NoBody, w)"
      using a none' by (simp add: deleteTasksId_def withAuth_accept hydrate_def)
    moreover have "patchTasksId L (req\<lparr>params_id := i\<rparr>) w =
           (if list_all (\<lambda>k. k \<in> set [''description'', ''completed'']) (map fst (body req))
            then Reply 404 NoBody
            else Reply 400 (Json (JObj [(''error'', JStr ''Invalid updates!'')])), w)"
      using a none'
      by (simp add: patchTasksId_def withAuth_accept hydrate_def invalidUpdates_def)
    ultimately show ?thesis using g d p by simp
  qed
  from g d p other show ?thesis by blast
qed

lemma auth_foreignGet: "auth refLib world0 foreignGet = Inr (''secret.aa'', bob)"
  by (simp add: auth_def Let_def foreignGet_def ref_defs)

lemma auth_foreignPatch: "auth refLib world0 foreignPatch = Inr (''secret.aa'', bob)"
  by (simp add: auth_def Let_def foreignPatch_def ref_defs)

theorem foreign_task_not_found_witness:
  "auth refLib world0 foreignGet = Inr (''secret.aa'', bob)
   \<and> milk \<in> set (tasks world0) \<and> owner milk \<noteq> uid bob
   \<and> castObjectId refLib (params_id foreignGet) = Some (tid milk)
   \<and> distinct (map tid (tasks world0))
   \<and> getTasksId refLib foreignGet world0 = (Reply 404 NoBody, world0)
   \<and> deleteTasksId refLib foreignGet world0 = (Reply 404 NoBody, world0)
   \<and> patchTasksId refLib foreignGet world0 = (Reply 404 NoBody, world0)
   \<and> getTasksId refLib (foreignGet\<lparr>params_id := ''aaaaa''\<rparr>) world0 = getTasksId refLib foreignGet world0"
proof -
  have h2: "milk \<in> set (tasks world0)" by (simp add: world0_def)
  have h3: "owner milk \<noteq> uid bob" by (simp add: milk_def bob_def)
  have h4: "castObjectId refLib (params_id foreignGet) = Some (tid milk)"
    by (simp add: foreignGet_def request0_def refLib_def milk_def)
  have h5: "distinct (map tid (tasks world0))" by (simp add: world0_def)
  note th = foreign_task_not_found [OF auth_foreignGet h2 h3 h4 h5]
  have b: "list_all (\<lambda>k. k \<in> set [''description'', ''completed'']) (map fst (body foreignGet))"
    by (simp add: foreignGet_def request0_def)
  have c: "castObjectId refLib ''aaaaa'' = Some 5 \<and> 5 \<notin> set (map tid (tasks world0))"
    by (simp add: refLib_def world0_def milk_def)
  from th c have "getTasksId refLib (foreignGet\<lparr>params_id := ''aaaaa''\<rparr>) world0
                    = getTasksId refLib foreignGet world0"
    by blast
  with th b auth_foreignGet h2 h3 h4 h5 show ?thesis by simp
qed

text \<open>
  C1 as stated fails for PATCH: Bob sends the id of the task of Alice with the key
  \<^verbatim>\<open>owner\<close> in the body, and the reply is 400, not 404.
\<close>

theorem foreign_patch_counterexample:
  "auth refLib world0 foreignPatch = Inr (''secret.aa'', bob)
   \<and> milk \<in> set (tasks world0) \<and> owner milk \<noteq> uid bob
   \<and> castObjectId refLib (params_id foreignPatch) = Some (tid milk)
   \<and> patchTasksId refLib foreignPatch world0 =
       (Reply 400 (Json (JObj [(''error'', JStr ''Invalid updates!'')])), world0)
   \<and> fst (patchTasksId refLib foreignPatch world0) \<noteq> Reply 404 NoBody"
proof -
  have "patchTasksId refLib foreignPatch world0 =
       (Reply 400 (Json (JObj [(''error'', JStr ''Invalid updates!'')])), world0)"
    using auth_foreignPatch
    by (simp add: patchTasksId_def withAuth_accept invalidUpdates_def foreignPatch_def request0_def)
  moreover have "milk \<in> set (tasks world0)" by (simp add: world0_def)
  moreover have "owner milk \<noteq> uid bob" by (simp add: milk_def bob_def)
  moreover have "castObjectId refLib (params_id foreignPatch) = Some (tid milk)"
    by (simp add: foreignPatch_def request0_def refLib_def milk_def)
  ultimately show ?thesis using auth_foreignPatch by simp
qed

subsection \<open>The user as the replies show it\<close>

lemma toJSON_eq:
  "toJSON L u =
     JObj [(''_id'', JStr (toString L (uid u))), (''name'', JStr (name u)),
           (''email'', JStr (email u)),
           (''age'', (case age u of None \<Rightarrow> JNull | Some n \<Rightarrow> JNum n))]"
  by (simp add: toJSON_def toObject_def delete_def)

lemma withAuth_cases:
  "withAuth L w req h = (unauthorized, w)
   \<or> (\<exists>token u. auth L w req = Inr (token, u) \<and> withAuth L w req h = h token (hydrate u))"
  by (cases "auth L w req") (auto simp: withAuth_def dest: auth_reject_reply)

text \<open>
  C9. The JSON of a user has the keys \<^verbatim>\<open>_id\<close>, \<^verbatim>\<open>name\<close>, \<^verbatim>\<open>email\<close> and \<^verbatim>\<open>age\<close>
  and no other: the password, the tokens and the avatar are not in it, and two users
  that differ in these three only have the same JSON. Registration and login reply
  with that JSON beside the new token, \<^verbatim>\<open>GET /users/me\<close>, the patch of the profile
  and the deletion of the account with that JSON alone; their other replies carry no
  user.
\<close>

theorem user_json_omits_private_fields:
  "toJSON L u =
     JObj [(''_id'', JStr (toString L (uid u))), (''name'', JStr (name u)),
           (''email'', JStr (email u)),
           (''age'', (case age u of None \<Rightarrow> JNull | Some n \<Rightarrow> JNum n))]
   \<and> toJSON L (u\<lparr>password := p, tokens := ts, avatar := av\<rparr>) = toJSON L u
   \<and> (\<exists>x t e. fst (postUsers L a req w) \<in>
         {Reply 201 (Json (JObj [(''user'', toJSON L x), (''token'', JStr t)])),
          Reply 400 (ErrorBody e)})
   \<and> (\<exists>x t. fst (postUsersLogin L a req w) \<in>
         {Reply 200 (Json (JObj [(''user'', toJSON L x), (''token'', JStr t)])),
          Reply 400 NoBody})
   \<and> (\<exists>x. fst (getUsersMe L req w) \<in> {Reply 200 (Json (toJSON L x)), unauthorized})
   \<and> (\<exists>x e. fst (patchUsersMe L a req w) \<in>
         {Reply 200 (Json (toJSON L x)), unauthorized, invalidUpdates, Reply 400 (ErrorBody e)})
   \<and> (\<exists>x. fst (deleteUsersMe L req w) \<in> {Reply 200 (Json (toJSON L x)), unauthorized})"
proof -
  have 1: "toJSON L (u\<lparr>password := p, tokens := ts, avatar := av\<rparr>) = toJSON L u"
    by (simp add: toJSON_eq)
  have 2: "\<exists>x t e. fst (postUsers L a req w) \<in>
         {Reply 201 (Json (JObj [(''user'', toJSON L x), (''token'', JStr t)])),
          Reply 400 (ErrorBody e)}"
    by (auto simp: postUsers_def userAndToken_def Let_def split: sum.splits prod.splits)
  have 3: "\<exists>x t. fst (postUsersLogin L a req w) \<in>
         {Reply 200 (Json (JObj [(''user'', toJSON L x), (''token'', JStr t)])),
          Reply 400 NoBody}"
    by (auto simp: postUsersLogin_def userAndToken_def split: sum.splits prod.splits)
  have 4: "\<exists>x. fst (getUsersMe L req w) \<in> {Reply 200 (Json (toJSON L x)), unauthorized}"
    using withAuth_cases [of L w req "\<lambda>token user. (Reply 200 (Json (toJSON L (doc user))), w)"]
    by (auto simp: getUsersMe_def)
  have 5: "\<exists>x e. fst (patchUsersMe L a req w) \<in>
         {Reply 200 (Json (toJSON L x)), unauthorized, invalidUpdates, Reply 400 (ErrorBody e)}"
    unfolding patchUsersMe_def
    by (cases "auth L w req")
       (auto simp: withAuth_def Let_def dest: auth_reject_reply split: sum.splits prod.splits)
  have 6: "\<exists>x. fst (deleteUsersMe L req w) \<in> {Reply 200 (Json (toJSON L x)), unauthorized}"
    unfolding deleteUsersMe_def
    by (cases "auth L w req")
       (auto simp: withAuth_def Let_def dest: auth_reject_reply split: sum.splits prod.splits)
  from toJSON_eq [of L u] 1 2 3 4 5 6 show ?thesis by blast
qed

subsection \<open>The owner of a task\<close>



lemma setTaskPath_keeps:
  "tid (doc (setTaskPath L k v d)) = tid (doc d)
   \<and> owner (doc (setTaskPath L k v d)) = owner (doc d)
   \<and> isNew (setTaskPath L k v d) = isNew d"
  by (simp add: setTaskPath_def setPath_def invalidate_def split: option.splits)

lemma foldl_setTaskPath_keeps:
  "tid (doc (foldl (\<lambda>d x. setTaskPath L (f x) (g x) d) d0 xs)) = tid (doc d0)
   \<and> owner (doc (foldl (\<lambda>d x. setTaskPath L (f x) (g x) d) d0 xs)) = owner (doc d0)
   \<and> isNew (foldl (\<lambda>d x. setTaskPath L (f x) (g x) d) d0 xs) = isNew d0"
  by (induction xs arbitrary: d0) (simp_all add: setTaskPath_keeps)

lemma newTask_keeps:
  "tid (doc (newTask L i obj ow)) = i \<and> owner (doc (newTask L i obj ow)) = ow
   \<and> isNew (newTask L i obj ow)"
  unfolding newTask_def case_prod_unfold
  by (simp add: foldl_setTaskPath_keeps [of L fst snd])

lemma saveTask_new:
  assumes "isNew d" and "saveTask d w = Inr (d', w')"
  shows "doc d' = doc d \<and> tasks w' = tasks w @ [doc d] \<and> tid (doc d) \<notin> set (map tid (tasks w))
         \<and> users w' = users w \<and> outbox w' = outbox w"
  using assms by (auto simp: saveTask_def Let_def split: list.splits if_splits)

lemma saveTask_old:
  assumes "\<not> isNew d" and "saveTask d w = Inr (d', w')"
  shows "doc d' = doc d \<and> users w' = users w \<and> outbox w' = outbox w
       \<and> (tasks w' = tasks w
          \<or> tasks w' = map (\<lambda>x. if tid x = tid (doc d) then doc d else x) (tasks w))"
  using assms by (auto simp: saveTask_def Let_def split: list.splits if_splits)

lemma findOneTask_SomeD:
  "findOneTask L w i ow = Inr (Some t) \<Longrightarrow> t \<in> set (tasks w) \<and> owner t = ow"
  by (auto simp: findOneTask_def split: option.splits dest: find_SomeD)

text \<open>What a request can do to the collection of tasks.\<close>

lemma postTasks_step:
  assumes "postTasks L a req w = (rep, w')"
  shows "w' = w
     \<or> (\<exists>token u t. auth L w req = Inr (token, u) \<and> rep = Reply 201 (TaskBody t)
          \<and> owner t = uid u \<and> tid t \<notin> set (map tid (tasks w)) \<and> tasks w' = tasks w @ [t])"
proof (cases "auth L w req")
  case (Inl r)
  with assms show ?thesis by (simp add: postTasks_def withAuth_def)
next
  case (Inr p)
  obtain token u where p: "p = (token, u)" by (cases p)
  show ?thesis
  proof (cases "saveTask (newTask L (freshId a) (body req) (uid u)) w")
    case (Inl e)
    with assms Inr p show ?thesis by (simp add: postTasks_def withAuth_def hydrate_def)
  next
    case (Inr q)
    obtain d' w1 where q: "q = (d', w1)" by (cases q)
    from Inr q have s: "saveTask (newTask L (freshId a) (body req) (uid u)) w = Inr (d', w1)"
      by simp
    from newTask_keeps have n: "isNew (newTask L (freshId a) (body req) (uid u))" by blast
    note sn = saveTask_new [OF n s]
    from assms \<open>auth L w req = Inr p\<close> p s
    have "rep = Reply 201 (TaskBody (doc d'))" and "w' = w1"
      by (simp_all add: postTasks_def withAuth_def hydrate_def)
    with sn newTask_keeps [of L "freshId a" "body req" "uid u"] \<open>auth L w req = Inr p\<close> p
    show ?thesis by auto
  qed
qed






















subsection \<open>The tokens\<close>

lemma generateAuthToken_token:
  "generateAuthToken L a d w = Inr (token, d', w')
   \<Longrightarrow> token = jwt_sign L (toString L (uid (doc d))) (now a) (JWT_SECRET L)"
  by (auto simp: generateAuthToken_def Let_def split: sum.splits)

lemma auth_acceptD:
  assumes "auth L w req = Inr (t, u)"
  shows "jwt_verify L t (JWT_SECRET L) \<noteq> None \<and> u \<in> set (users w) \<and> t \<in> set (tokens u)
       \<and> (\<exists>d. jwt_verify L t (JWT_SECRET L) = Some d \<and> castObjectId L d = Some (uid u))"
  using assms by (auto simp: auth_accept_iff dest: find_SomeD)

text \<open>
  C4. Let \<^verbatim>\<open>jwt.verify\<close> return the id that \<^verbatim>\<open>jwt.sign\<close> was given, for the printed
  ObjectIds, and let the cast of a printed ObjectId return that ObjectId. Then a token
  that \<open>generateAuthToken\<close> issues to a user decodes to the id of that user; whenever
  the guard accepts it, on any stored data and in any request, the user it attaches is
  a stored user with that id who holds the token; and the guard accepts no token that
  does not verify or that the user it attaches does not hold.
\<close>

theorem issued_token_resolves_to_its_user:
  assumes "\<forall>n iat. jwt_verify L (jwt_sign L (toString L n) iat (JWT_SECRET L)) (JWT_SECRET L)
                     = Some (toString L n)"
      and "\<forall>n. castObjectId L (toString L n) = Some n"
      and "generateAuthToken L a d w = Inr (token, d', w')"
  shows "jwt_verify L token (JWT_SECRET L) = Some (toString L (uid (doc d)))
       \<and> (\<forall>w2 req u. auth L w2 req = Inr (token, u) \<longrightarrow>
             uid u = uid (doc d) \<and> u \<in> set (users w2) \<and> token \<in> set (tokens u))
       \<and> (\<forall>w2 req t u. auth L w2 req = Inr (t, u) \<longrightarrow>
             jwt_verify L t (JWT_SECRET L) \<noteq> None \<and> u \<in> set (users w2) \<and> t \<in> set (tokens u))"
proof -
  from assms(3) have tok: "token = jwt_sign L (toString L (uid (doc d))) (now a) (JWT_SECRET L)"
    by (rule generateAuthToken_token)
  with assms(1) have v: "jwt_verify L token (JWT_SECRET L) = Some (toString L (uid (doc d)))"
    by simp
  have own: "uid u = uid (doc d) \<and> u \<in> set (users w2) \<and> token \<in> set (tokens u)"
    if "auth L w2 req = Inr (token, u)" for w2 req u
  proof -
    from auth_acceptD [OF that] v have "castObjectId L (toString L (uid (doc d))) = Some (uid u)"
      by auto
    with assms(2) have "uid u = uid (doc d)" by simp
    with auth_acceptD [OF that] show ?thesis by simp
  qed
  have only: "jwt_verify L t (JWT_SECRET L) \<noteq> None \<and> u \<in> set (users w2) \<and> t \<in> set (tokens u)"
    if "auth L w2 req = Inr (t, u)" for w2 req t u
    using auth_acceptD [OF that] by simp
  from v own only show ?thesis by blast
qed

lemma takeWhile_letters:
  "takeWhile (\<lambda>c. c \<noteq> CHR ''.'') (replicate n CHR ''a'' @ CHR ''.'' # r) = replicate n CHR ''a''"
  by (induction n) simp_all

lemma refLib_roundtrip:
  "\<forall>n iat. jwt_verify refLib (jwt_sign refLib (toString refLib n) iat (JWT_SECRET refLib)) (JWT_SECRET refLib)
             = Some (toString refLib n)"
  by (simp add: refLib_def takeWhile_letters)

lemma refLib_cast: "\<forall>n. castObjectId refLib (toString refLib n) = Some n"
  by (simp add: refLib_def)

theorem issued_token_resolves_to_its_user_witness:
  "(\<forall>n iat. jwt_verify refLib (jwt_sign refLib (toString refLib n) iat (JWT_SECRET refLib))
                (JWT_SECRET refLib) = Some (toString refLib n))
   \<and> (\<forall>n. castObjectId refLib (toString refLib n) = Some n)
   \<and> generateAuthToken refLib ambient0 (hydrate bob) world0 = Inr (''secret.aa.'', hydrate bob2, world1)
   \<and> jwt_verify refLib ''secret.aa.'' (JWT_SECRET refLib) = Some (toString refLib (uid (doc (hydrate bob))))
   \<and> auth refLib world1 logoutRequest = Inr (''secret.aa.'', bob2)
   \<and> uid bob2 = uid (doc (hydrate bob)) \<and> bob2 \<in> set (users world1)
   \<and> ''secret.aa.'' \<in> set (tokens bob2)"
proof -
  have g: "generateAuthToken refLib ambient0 (hydrate bob) world0
             = Inr (''secret.aa.'', hydrate bob2, world1)"
    by code_simp
  have acc: "auth refLib world1 logoutRequest = Inr (''secret.aa.'', bob2)"
    by code_simp
  note th = issued_token_resolves_to_its_user [OF refLib_roundtrip refLib_cast g]
  from th have v: "jwt_verify refLib ''secret.aa.'' (JWT_SECRET refLib)
                     = Some (toString refLib (uid (doc (hydrate bob))))"
    by (rule conjunct1)
  from th acc have "uid bob2 = uid (doc (hydrate bob)) \<and> bob2 \<in> set (users world1)
                      \<and> ''secret.aa.'' \<in> set (tokens bob2)"
    by blast
  with refLib_roundtrip refLib_cast g v acc show ?thesis by blast
qed

subsection \<open>Logging out\<close>

lemma save_tokens:
  assumes "f u = u\<lparr>tokens := ts\<rparr>" and "ts \<noteq> tokens u" and "list_all (\<lambda>t. t \<noteq> []) ts"
  shows "saveUser L s (setPath ''tokens'' f (hydrate u)) w =
           Inr (hydrate (u\<lparr>tokens := ts\<rparr>),
                w\<lparr>users := map (\<lambda>x. if uid x = uid u then u\<lparr>tokens := ts\<rparr> else x) (users w)\<rparr>)"
proof -
  have ne: "u\<lparr>tokens := ts\<rparr> \<noteq> u"
  proof
    assume "u\<lparr>tokens := ts\<rparr> = u"
    then have "tokens (u\<lparr>tokens := ts\<rparr>) = tokens u" by simp
    with assms(2) show False by simp
  qed
  have d: "setPath ''tokens'' f (hydrate u) =
             \<lparr>doc = u\<lparr>tokens := ts\<rparr>, isNew = False, modifiedPaths = [''tokens''], castErrors = []\<rparr>"
    using ne assms(1) by (simp add: setPath_def hydrate_def)
  show ?thesis
    unfolding d using assms(3)
    by (simp add: saveUser_def validateUser_def validated_def isModified_def validUserPath_def
          preSave_def Let_def hydrate_def)
qed

lemma find_map:
  "find P (map f xs) = map_option f (find (\<lambda>x. P (f x)) xs)"
  by (induction xs) simp_all

lemma find_agree:
  "(\<And>x. x \<in> set xs \<Longrightarrow> P x = Q x) \<Longrightarrow> find P xs = find Q xs"
  by (induction xs) simp_all

text \<open>
  The guard after the record of one user was replaced: a token it accepted is accepted
  again when the new record of its user still holds it.
\<close>

lemma auth_after_update:
  assumes dist: "distinct (map uid (users w))" and u: "u \<in> set (users w)"
      and id: "uid u' = uid u"
      and acc: "auth L w req = Inr (t, x)"
      and keep: "x = u \<longrightarrow> t \<in> set (tokens u')"
  shows "auth L (w\<lparr>users := map (\<lambda>y. if uid y = uid u then u' else y) (users w)\<rparr>) req
           = Inr (t, if uid x = uid u then u' else x)"
proof -
  from acc obtain h d i where
    h: "authorization req = Some h" "t = replace h ''Bearer '' []"
    and v: "jwt_verify L t (JWT_SECRET L) = Some d" and c: "castObjectId L d = Some i"
    and f: "find (\<lambda>y. uid y = i \<and> t \<in> set (tokens y)) (users w) = Some x"
    by (auto simp: auth_accept_iff)
  let ?g = "\<lambda>y. if uid y = uid u then u' else y"
  from find_SomeD [OF f] have x: "x \<in> set (users w)" "uid x = i" "t \<in> set (tokens x)"
    by simp_all
  have agree: "(uid (?g y) = i \<and> t \<in> set (tokens (?g y))) = (uid y = i \<and> t \<in> set (tokens y))"
    if "y \<in> set (users w)" for y
  proof (cases "uid y = uid u")
    case False
    then show ?thesis by simp
  next
    case True
    with that u dist have yu: "y = u" by (auto dest: distinct_map_eq)
    show ?thesis
    proof (cases "i = uid u")
      case False
      with True id show ?thesis by simp
    next
      case True
      with x u dist have "x = u" by (auto dest: distinct_map_eq)
      with keep x yu id show ?thesis by simp
    qed
  qed
  have "find (\<lambda>y. uid y = i \<and> t \<in> set (tokens y)) (map ?g (users w))
          = map_option ?g (find (\<lambda>y. uid (?g y) = i \<and> t \<in> set (tokens (?g y))) (users w))"
    by (rule find_map)
  also have "find (\<lambda>y. uid (?g y) = i \<and> t \<in> set (tokens (?g y))) (users w)
          = find (\<lambda>y. uid y = i \<and> t \<in> set (tokens y)) (users w)"
    by (rule find_agree) (rule agree)
  finally have "find (\<lambda>y. uid y = i \<and> t \<in> set (tokens y)) (map ?g (users w)) = Some (?g x)"
    using f by simp
  with h v c show ?thesis
    by (simp add: auth_accept_iff)
qed

text \<open>The guard refuses a token whose user holds it no more.\<close>

lemma auth_after_revocation:
  assumes dist: "distinct (map uid (users w))" and u: "u \<in> set (users w)"
      and id: "uid u' = uid u" and gone: "t \<notin> set (tokens u')"
      and v: "jwt_verify L t (JWT_SECRET L) = Some d" and c: "castObjectId L d = Some (uid u)"
      and h: "authorization req = Some h" "replace h ''Bearer '' [] = t"
  shows "auth L (w\<lparr>users := map (\<lambda>y. if uid y = uid u then u' else y) (users w)\<rparr>) req
           = Inl unauthorized"
proof -
  let ?g = "\<lambda>y. if uid y = uid u then u' else y"
  have "\<not> (uid z = uid u \<and> t \<in> set (tokens z))" if "z \<in> set (map ?g (users w))" for z
    using that gone by auto
  then have "find (\<lambda>y. uid y = uid u \<and> t \<in> set (tokens y)) (map ?g (users w)) = None"
    by (simp only: find_None_iff) blast
  with h v c show ?thesis
    by (simp add: auth_def Let_def)
qed

text \<open>
  C5. Let the stored users have distinct ids and the caller no empty token. A logout
  with the token \<open>token\<close> is answered 200 and leaves the caller with the tokens other
  than \<open>token\<close>, in their order; a request the guard accepted for the caller with
  another token, or for another user, is accepted as before, and a request with
  \<open>token\<close> is refused. A logout from everywhere is answered 200 and leaves the caller
  without a token; every request the guard accepted for the caller is then refused
  with the 401 of the guard, on every protected route.
\<close>

theorem logout_revokes_one_logoutAll_every:
  assumes "auth L w req = Inr (token, u)"
      and "distinct (map uid (users w))"
      and "list_all (\<lambda>t. t \<noteq> []) (tokens u)"
  shows "(\<exists>w'. postUsersLogout L a req w = (Reply 200 NoBody, w')
            \<and> users w' = map (\<lambda>x. if uid x = uid u
                                 then u\<lparr>tokens := filter (\<lambda>t. t \<noteq> token) (tokens u)\<rparr> else x) (users w)
            \<and> (\<forall>req' t. auth L w req' = Inr (t, u) \<and> t \<noteq> token \<longrightarrow>
                  auth L w' req' = Inr (t, u\<lparr>tokens := filter (\<lambda>t. t \<noteq> token) (tokens u)\<rparr>))
            \<and> (\<forall>req' t x. auth L w req' = Inr (t, x) \<and> uid x \<noteq> uid u \<longrightarrow>
                  auth L w' req' = Inr (t, x))
            \<and> (\<forall>req' x. auth L w req' = Inr (token, x) \<longrightarrow> auth L w' req' = Inl unauthorized))
       \<and> (\<exists>w'. postUsersLogoutAll L a req w = (Reply 200 NoBody, w')
            \<and> users w' = map (\<lambda>x. if uid x = uid u then u\<lparr>tokens := []\<rparr> else x) (users w)
            \<and> (\<forall>req' t x. auth L w req' = Inr (t, x) \<and> uid x = uid u \<longrightarrow>
                  auth L w' req' = Inl unauthorized
                  \<and> (\<forall>a' r. protected r \<longrightarrow> handle L a' r req' w' = (unauthorized, w'))))"
proof (intro conjI)
  let ?ts = "filter (\<lambda>t. t \<noteq> token) (tokens u)"
  let ?u' = "u\<lparr>tokens := ?ts\<rparr>"
  let ?w' = "w\<lparr>users := map (\<lambda>x. if uid x = uid u then ?u' else x) (users w)\<rparr>"
  from auth_acceptD [OF assms(1)] obtain d where
    u: "u \<in> set (users w)" and tin: "token \<in> set (tokens u)"
    and v: "jwt_verify L token (JWT_SECRET L) = Some d" and c: "castObjectId L d = Some (uid u)"
    by blast
  from tin have "\<not> (\<forall>t \<in> set (tokens u). t \<noteq> token)" by blast
  then have ne: "?ts \<noteq> tokens u"
    by (simp only: filter_id_conv) simp
  from assms(3) have ok: "list_all (\<lambda>t. t \<noteq> []) ?ts"
    by (simp add: list_all_iff)
  have s: "saveUser L (salt a) (setPath ''tokens'' (\<lambda>u. u\<lparr>tokens := filter (\<lambda>t. t \<noteq> token) (tokens u)\<rparr>) (hydrate u)) w
             = Inr (hydrate ?u', ?w')"
    by (rule save_tokens [OF _ ne ok]) simp
  have r: "postUsersLogout L a req w = (Reply 200 NoBody, ?w')"
    using assms(1) s by (simp add: postUsersLogout_def withAuth_accept Let_def)
  have same: "auth L ?w' req' = Inr (t, ?u')" if "auth L w req' = Inr (t, u)" "t \<noteq> token" for req' t
  proof -
    from auth_acceptD [OF that(1)] that(2) have "t \<in> set (tokens ?u')" by simp
    with auth_after_update [OF assms(2) u _ that(1), of ?u'] show ?thesis by simp
  qed
  have others: "auth L ?w' req' = Inr (t, x)" if "auth L w req' = Inr (t, x)" "uid x \<noteq> uid u" for req' t x
  proof -
    from that(2) have "x = u \<longrightarrow> t \<in> set (tokens ?u')" by auto
    with auth_after_update [OF assms(2) u _ that(1), of ?u'] that(2) show ?thesis by simp
  qed
  have revoked: "auth L ?w' req' = Inl unauthorized" if "auth L w req' = Inr (token, x)" for req' x
  proof -
    from that obtain h where h: "authorization req' = Some h" "replace h ''Bearer '' [] = token"
      by (auto simp: auth_accept_iff)
    show ?thesis
      by (rule auth_after_revocation [OF assms(2) u _ _ v c h]) simp_all
  qed
  from r same others revoked
  show "\<exists>w'. postUsersLogout L a req w = (Reply 200 NoBody, w')
            \<and> users w' = map (\<lambda>x. if uid x = uid u then ?u' else x) (users w)
            \<and> (\<forall>req' t. auth L w req' = Inr (t, u) \<and> t \<noteq> token \<longrightarrow> auth L w' req' = Inr (t, ?u'))
            \<and> (\<forall>req' t x. auth L w req' = Inr (t, x) \<and> uid x \<noteq> uid u \<longrightarrow>
                  auth L w' req' = Inr (t, x))
            \<and> (\<forall>req' x. auth L w req' = Inr (token, x) \<longrightarrow> auth L w' req' = Inl unauthorized)"
    by (intro exI [of _ ?w']) simp
next
  let ?u' = "u\<lparr>tokens := []\<rparr>"
  let ?w' = "w\<lparr>users := map (\<lambda>x. if uid x = uid u then ?u' else x) (users w)\<rparr>"
  from auth_acceptD [OF assms(1)] have u: "u \<in> set (users w)" and tin: "token \<in> set (tokens u)"
    by simp_all
  from tin have ne: "[] \<noteq> tokens u" by auto
  have s: "saveUser L (salt a) (setPath ''tokens'' (\<lambda>u. u\<lparr>tokens := []\<rparr>) (hydrate u)) w
             = Inr (hydrate ?u', ?w')"
    by (rule save_tokens [OF _ ne]) simp_all
  have r: "postUsersLogoutAll L a req w = (Reply 200 NoBody, ?w')"
    using assms(1) s by (simp add: postUsersLogoutAll_def withAuth_accept Let_def)
  have rej: "auth L ?w' req' = Inl unauthorized
             \<and> (\<forall>a' r. protected r \<longrightarrow> handle L a' r req' ?w' = (unauthorized, ?w'))"
    if "auth L w req' = Inr (t, x)" "uid x = uid u" for req' t x
  proof -
    from that(1) obtain h where h: "authorization req' = Some h" "replace h ''Bearer '' [] = t"
      by (auto simp: auth_accept_iff)
    from auth_acceptD [OF that(1)] that(2) obtain d where
      v: "jwt_verify L t (JWT_SECRET L) = Some d" and c: "castObjectId L d = Some (uid u)"
      by auto
    have 1: "auth L ?w' req' = Inl unauthorized"
      by (rule auth_after_revocation [OF assms(2) u _ _ v c h]) simp_all
    have "handle L a' r req' ?w' = (unauthorized, ?w')" if "protected r" for a' r
      using 1 that by (rule guard_blocks_route)
    with 1 show ?thesis by blast
  qed
  from r rej
  show "\<exists>w'. postUsersLogoutAll L a req w = (Reply 200 NoBody, w')
            \<and> users w' = map (\<lambda>x. if uid x = uid u then ?u' else x) (users w)
            \<and> (\<forall>req' t x. auth L w req' = Inr (t, x) \<and> uid x = uid u \<longrightarrow>
                  auth L w' req' = Inl unauthorized
                  \<and> (\<forall>a' r. protected r \<longrightarrow> handle L a' r req' w' = (unauthorized, w')))"
    by (intro exI [of _ ?w']) simp
qed

theorem logout_revokes_one_logoutAll_every_witness:
  "auth refLib world1 logoutRequest = Inr (''secret.aa.'', bob2)
   \<and> distinct (map uid (users world1))
   \<and> list_all (\<lambda>t. t \<noteq> []) (tokens bob2)
   \<and> postUsersLogout refLib ambient0 logoutRequest world1 = (Reply 200 NoBody, world0)
   \<and> auth refLib world1 foreignGet = Inr (''secret.aa'', bob2)
   \<and> auth refLib world0 foreignGet = Inr (''secret.aa'', bob)
   \<and> auth refLib world0 logoutRequest = Inl unauthorized
   \<and> postUsersLogoutAll refLib ambient0 logoutRequest world1
       = (Reply 200 NoBody, world1\<lparr>users := [alice, bob\<lparr>tokens := []\<rparr>]\<rparr>)
   \<and> auth refLib (world1\<lparr>users := [alice, bob\<lparr>tokens := []\<rparr>]\<rparr>) foreignGet = Inl unauthorized
   \<and> handle refLib ambient0 GET_users_me foreignGet (world1\<lparr>users := [alice, bob\<lparr>tokens := []\<rparr>]\<rparr>)
       = (unauthorized, world1\<lparr>users := [alice, bob\<lparr>tokens := []\<rparr>]\<rparr>)"
proof -
  have acc: "auth refLib world1 logoutRequest = Inr (''secret.aa.'', bob2)"
    by code_simp
  have d: "distinct (map uid (users world1))"
    by (simp add: world1_def alice_def bob2_def bob_def)
  have ne: "list_all (\<lambda>t. t \<noteq> []) (tokens bob2)"
    by (simp add: bob2_def)
  note th = logout_revokes_one_logoutAll_every [OF acc d ne, of ambient0]
  have out: "postUsersLogout refLib ambient0 logoutRequest world1 = (Reply 200 NoBody, world0)"
    by code_simp
  have all: "postUsersLogoutAll refLib ambient0 logoutRequest world1
       = (Reply 200 NoBody, world1\<lparr>users := [alice, bob\<lparr>tokens := []\<rparr>]\<rparr>)"
    by code_simp
  have other: "auth refLib world1 foreignGet = Inr (''secret.aa'', bob2)"
    by code_simp
  have diff: "''secret.aa'' \<noteq> ''secret.aa.''" by simp
  have left: "bob2\<lparr>tokens := filter (\<lambda>t. t \<noteq> ''secret.aa.'') (tokens bob2)\<rparr> = bob"
    by (simp add: bob2_def bob_def)
  from th out other diff
  have "auth refLib world0 foreignGet
          = Inr (''secret.aa'', bob2\<lparr>tokens := filter (\<lambda>t. t \<noteq> ''secret.aa.'') (tokens bob2)\<rparr>)"
    by auto
  with left have 1: "auth refLib world0 foreignGet = Inr (''secret.aa'', bob)"
    by simp
  from th out acc have 2: "auth refLib world0 logoutRequest = Inl unauthorized"
    by auto
  have p: "protected GET_users_me" by (simp add: protected_def)
  from th obtain w' where
    A: "postUsersLogoutAll refLib ambient0 logoutRequest world1 = (Reply 200 NoBody, w')"
    and B: "\<forall>req' t x. auth refLib world1 req' = Inr (t, x) \<and> uid x = uid bob2 \<longrightarrow>
              auth refLib w' req' = Inl unauthorized
              \<and> (\<forall>a' r. protected r \<longrightarrow> handle refLib a' r req' w' = (unauthorized, w'))"
    by blast
  from A all have w': "w' = world1\<lparr>users := [alice, bob\<lparr>tokens := []\<rparr>]\<rparr>"
    by simp
  from B other have "auth refLib w' foreignGet = Inl unauthorized
     \<and> (\<forall>a' r. protected r \<longrightarrow> handle refLib a' r foreignGet w' = (unauthorized, w'))"
    by blast
  with p w'
  have 3: "auth refLib (world1\<lparr>users := [alice, bob\<lparr>tokens := []\<rparr>]\<rparr>) foreignGet = Inl unauthorized
     \<and> handle refLib ambient0 GET_users_me foreignGet (world1\<lparr>users := [alice, bob\<lparr>tokens := []\<rparr>]\<rparr>)
       = (unauthorized, world1\<lparr>users := [alice, bob\<lparr>tokens := []\<rparr>]\<rparr>)"
    by blast
  from acc d ne out other 1 2 all 3 show ?thesis by blast
qed

subsection \<open>The deletion of an account\<close>

lemma carried_simps [simp]:
  "carried (Reply s (TaskBody t)) = [t]"
  "carried (Reply s (TaskList ts)) = ts"
  "carried (Reply s NoBody) = []"
  "carried (Reply s (Json j)) = []"
  "carried (Reply s (ErrorBody e)) = []"
  "carried (Reply s (Image b)) = []"
  "carried NoReply = []"
  "carried unauthorized = []"
  "carried invalidUpdates = []"
  by (simp_all add: carried_def unauthorized_def invalidUpdates_def)

lemma postUsers_carried: "carried (fst (postUsers L a req w)) = []"
  by (auto simp: postUsers_def Let_def userAndToken_def split: sum.splits prod.splits)

lemma postUsersLogin_carried: "carried (fst (postUsersLogin L a req w)) = []"
  by (auto simp: postUsersLogin_def userAndToken_def split: sum.splits prod.splits)

lemma postUsersLogout_carried: "carried (fst (postUsersLogout L a req w)) = []"
  by (cases "auth L w req")
     (auto simp: postUsersLogout_def withAuth_def Let_def split: sum.splits prod.splits
           dest!: auth_reject_reply)

lemma postUsersLogoutAll_carried: "carried (fst (postUsersLogoutAll L a req w)) = []"
  by (cases "auth L w req")
     (auto simp: postUsersLogoutAll_def withAuth_def Let_def split: sum.splits prod.splits
           dest!: auth_reject_reply)

lemma getUsersMe_carried: "carried (fst (getUsersMe L req w)) = []"
  by (cases "auth L w req") (auto simp: getUsersMe_def withAuth_def dest!: auth_reject_reply)

lemma patchUsersMe_carried: "carried (fst (patchUsersMe L a req w)) = []"
  by (cases "auth L w req")
     (auto simp: patchUsersMe_def withAuth_def Let_def split: sum.splits prod.splits
           dest!: auth_reject_reply)

lemma deleteUsersMe_carried: "carried (fst (deleteUsersMe L req w)) = []"
  by (cases "auth L w req")
     (auto simp: deleteUsersMe_def withAuth_def Let_def dest!: auth_reject_reply)

lemma postUsersMeAvatar_carried: "carried (fst (postUsersMeAvatar L a req w)) = []"
  by (cases "auth L w req")
     (auto simp: postUsersMeAvatar_def withAuth_def Let_def
           split: sum.splits prod.splits option.splits dest!: auth_reject_reply)

lemma deleteUsersMeAvatar_carried: "carried (fst (deleteUsersMeAvatar L a req w)) = []"
  by (cases "auth L w req")
     (auto simp: deleteUsersMeAvatar_def withAuth_def Let_def split: sum.splits prod.splits
           dest!: auth_reject_reply)

lemma getUsersIdAvatar_carried: "carried (fst (getUsersIdAvatar L req w)) = []"
  by (auto simp: getUsersIdAvatar_def split: option.splits)


lemma doc_hydrate: "doc (hydrate x) = x"
  by (simp add: hydrate_def)

lemma getTasksId_carried:
  assumes "t \<in> set (carried (fst (getTasksId L req w)))"
  shows "\<exists>token x. auth L w req = Inr (token, x) \<and> owner t = uid x \<and> t \<in> set (tasks w)"
  using assms
  by (cases "auth L w req")
     (auto simp: getTasksId_def withAuth_def hydrate_def split: sum.splits option.splits
           dest!: auth_reject_reply findOneTask_SomeD)

lemma deleteTasksId_carried:
  assumes "t \<in> set (carried (fst (deleteTasksId L req w)))"
  shows "\<exists>token x. auth L w req = Inr (token, x) \<and> owner t = uid x \<and> t \<in> set (tasks w)"
  using assms
  by (cases "auth L w req")
     (auto simp: deleteTasksId_def withAuth_def hydrate_def split: sum.splits option.splits
           dest!: auth_reject_reply findOneTask_SomeD)

lemma getTasks_carried:
  assumes "\<forall>l s so xs ys. queryOptions L l s so xs = Some ys \<longrightarrow> set ys \<subseteq> set xs"
      and "t \<in> set (carried (fst (getTasks L req w)))"
  shows "\<exists>token x. auth L w req = Inr (token, x) \<and> owner t = uid x \<and> t \<in> set (tasks w)"
proof (cases "auth L w req")
  case (Inl r)
  with assms(2) show ?thesis
    by (auto simp: getTasks_def withAuth_def dest!: auth_reject_reply)
next
  case (Inr p)
  obtain token x where p: "p = (token, x)" by (cases p)
  let ?found = "filter (\<lambda>t. owner t = uid x
                        \<and> (case matchCompleted req of None \<Rightarrow> True | Some b \<Rightarrow> completed t = Some b))
                      (tasks w)"
  let ?q = "queryOptions L (parseInt L (map_of (query req) ''limit''))
                  (parseInt L (map_of (query req) ''skip'')) (sortOf req) ?found"
  show ?thesis
  proof (cases ?q)
    case None
    with assms(2) Inr p show ?thesis
      by (simp add: getTasks_def withAuth_def hydrate_def)
  next
    case (Some ts)
    with assms(2) Inr p have "t \<in> set ts"
      by (simp add: getTasks_def withAuth_def hydrate_def)
    moreover from assms(1) Some have "set ts \<subseteq> set ?found" by blast
    ultimately have "t \<in> set ?found" by blast
    with Inr p show ?thesis by simp
  qed
qed

lemma postTasks_carried:
  assumes "t \<in> set (carried (fst (postTasks L a req w)))"
  shows "\<exists>token x. auth L w req = Inr (token, x) \<and> owner t = uid x"
proof -
  obtain rep w' where r: "postTasks L a req w = (rep, w')" by (cases "postTasks L a req w")
  from postTasks_step [OF r] show ?thesis
  proof
    assume "w' = w"
    with r assms show ?thesis
      by (cases "auth L w req")
         (auto simp: postTasks_def withAuth_def hydrate_def Let_def newTask_keeps
               split: sum.splits prod.splits
               dest!: auth_reject_reply saveTask_new [OF conjunct2 [OF conjunct2 [OF newTask_keeps]]])
  next
    assume "\<exists>token u t. auth L w req = Inr (token, u) \<and> rep = Reply 201 (TaskBody t)
          \<and> owner t = uid u \<and> tid t \<notin> set (map tid (tasks w)) \<and> tasks w' = tasks w @ [t]"
    with r assms show ?thesis by auto
  qed
qed

lemma patchTasksId_carried:
  assumes "t \<in> set (carried (fst (patchTasksId L req w)))"
  shows "\<exists>token x. auth L w req = Inr (token, x) \<and> owner t = uid x"
proof (cases "auth L w req")
  case (Inl r)
  with assms show ?thesis
    by (auto simp: patchTasksId_def withAuth_def dest!: auth_reject_reply)
next
  case (Inr p)
  obtain token x where p: "p = (token, x)" by (cases p)
  have keeps: "owner (doc (foldl (\<lambda>d update. setTaskPath L update (bodyValue req update) d)
                    (hydrate t0) (map fst (body req)))) = owner t0" for t0
    using foldl_setTaskPath_keeps [of L "\<lambda>x. x" "bodyValue req" "hydrate t0" "map fst (body req)"]
    by (simp add: hydrate_def)
  have old: "\<not> isNew (foldl (\<lambda>d update. setTaskPath L update (bodyValue req update) d)
                    (hydrate t0) (map fst (body req)))" for t0
    using foldl_setTaskPath_keeps [of L "\<lambda>x. x" "bodyValue req" "hydrate t0" "map fst (body req)"]
    by (simp add: hydrate_def)
  from assms Inr p have "owner t = uid x"
    by (auto simp: patchTasksId_def withAuth_def Let_def keeps doc_hydrate
             split: if_splits sum.splits option.splits prod.splits
             dest!: findOneTask_SomeD saveTask_old [OF old])
  with Inr p show ?thesis by simp
qed

text \<open>Every task a reply shows belongs to the user the guard attached to the request.\<close>

lemma handle_carried:
  assumes "\<forall>l s so xs ys. queryOptions L l s so xs = Some ys \<longrightarrow> set ys \<subseteq> set xs"
      and "t \<in> set (carried (fst (handle L a r req w)))"
  shows "\<exists>token x. auth L w req = Inr (token, x) \<and> owner t = uid x"
proof (cases r)
  case POST_users
  with assms(2) postUsers_carried [of L a req w] show ?thesis by simp
next
  case POST_users_login
  with assms(2) postUsersLogin_carried [of L a req w] show ?thesis by simp
next
  case POST_users_logout
  with assms(2) postUsersLogout_carried [of L a req w] show ?thesis by simp
next
  case POST_users_logoutAll
  with assms(2) postUsersLogoutAll_carried [of L a req w] show ?thesis by simp
next
  case GET_users_me
  with assms(2) getUsersMe_carried [of L req w] show ?thesis by simp
next
  case PATCH_users_me
  with assms(2) patchUsersMe_carried [of L a req w] show ?thesis by simp
next
  case DELETE_users_me
  with assms(2) deleteUsersMe_carried [of L req w] show ?thesis by simp
next
  case POST_users_me_avatar
  with assms(2) postUsersMeAvatar_carried [of L a req w] show ?thesis by simp
next
  case DELETE_users_me_avatar
  with assms(2) deleteUsersMeAvatar_carried [of L a req w] show ?thesis by simp
next
  case GET_users_id_avatar
  with assms(2) getUsersIdAvatar_carried [of L req w] show ?thesis by simp
next
  case POST_tasks
  with assms(2) postTasks_carried [of t L a req w] show ?thesis by simp
next
  case GET_tasks
  with assms getTasks_carried [of L t req w] show ?thesis by simp blast
next
  case GET_tasks_id
  with assms(2) getTasksId_carried [of t L req w] show ?thesis by simp blast
next
  case PATCH_tasks_id
  with assms(2) patchTasksId_carried [of t L req w] show ?thesis by simp
next
  case DELETE_tasks_id
  with assms(2) deleteTasksId_carried [of t L req w] show ?thesis by simp blast
qed

text \<open>
  C7. Let the options of a query return tasks among those they are given. When an
  authenticated user deletes the account, the hook deletes every task of that user
  while the user is still stored, then the user is deleted; the reply is 200 with the
  JSON of the user. Afterwards no stored task has that owner, the tasks of the other
  users are all there, and no reply to any request on any route, whoever sends it,
  shows a task of that owner.
\<close>

theorem account_deletion_cascades:
  assumes "auth L w req = Inr (token, u)"
      and "\<forall>l s so xs ys. queryOptions L l s so xs = Some ys \<longrightarrow> set ys \<subseteq> set xs"
  shows "\<exists>w'. deleteUsersMe L req w = (Reply 200 (Json (toJSON L u)), w')
           \<and> tasks (preRemove u w) = filter (\<lambda>t. owner t \<noteq> uid u) (tasks w)
           \<and> users (preRemove u w) = users w
           \<and> remove u w = (preRemove u w)\<lparr>users := filter (\<lambda>x. uid x \<noteq> uid u) (users w)\<rparr>
           \<and> tasks w' = filter (\<lambda>t. owner t \<noteq> uid u) (tasks w)
           \<and> users w' = filter (\<lambda>x. uid x \<noteq> uid u) (users w)
           \<and> (\<forall>t \<in> set (tasks w'). owner t \<noteq> uid u)
           \<and> (\<forall>a' r req'. \<forall>t \<in> set (carried (fst (handle L a' r req' w'))). owner t \<noteq> uid u)"
proof -
  let ?w1 = "remove u w"
  let ?w' = "?w1\<lparr>outbox := outbox ?w1 @ [Cancellation (email u) (name u)]\<rparr>"
  have r: "deleteUsersMe L req w = (Reply 200 (Json (toJSON L u)), ?w')"
    using assms(1) by (simp add: deleteUsersMe_def withAuth_accept Let_def hydrate_def)
  have t: "tasks ?w' = filter (\<lambda>t. owner t \<noteq> uid u) (tasks w)"
    by (simp add: remove_def preRemove_def Let_def)
  have us: "users ?w' = filter (\<lambda>x. uid x \<noteq> uid u) (users w)"
    by (simp add: remove_def preRemove_def Let_def)
  have none: "owner t \<noteq> uid u" if "t \<in> set (carried (fst (handle L a' r req' ?w')))" for a' r req' t
  proof -
    from handle_carried [OF assms(2) that] obtain token' x where
      x: "auth L ?w' req' = Inr (token', x)" "owner t = uid x"
      by blast
    from auth_acceptD [OF x(1)] have "x \<in> set (users ?w')" by simp
    with us have "uid x \<noteq> uid u" by simp
    with x(2) show ?thesis by simp
  qed
  have h1: "tasks (preRemove u w) = filter (\<lambda>t. owner t \<noteq> uid u) (tasks w)"
    by (simp add: preRemove_def)
  have h2: "users (preRemove u w) = users w"
    by (simp add: preRemove_def)
  have h3: "remove u w = (preRemove u w)\<lparr>users := filter (\<lambda>x. uid x \<noteq> uid u) (users w)\<rparr>"
    by (simp add: remove_def Let_def h2)
  have h4: "\<forall>t \<in> set (tasks ?w'). owner t \<noteq> uid u"
    by (simp only: t) simp
  have h5: "\<forall>a' r req'. \<forall>t \<in> set (carried (fst (handle L a' r req' ?w'))). owner t \<noteq> uid u"
    using none by blast
  show ?thesis
    by (rule exI [of _ ?w']) (intro conjI r h1 h2 h3 t us h4 h5)
qed

lemma refLib_queryOptions: "\<forall>l s so xs. queryOptions refLib l s so xs = Some xs"
  by (simp add: refLib_def)

theorem account_deletion_cascades_witness:
  "auth refLib world0 deleteAlice = Inr (''secret.a'', alice)
   \<and> (\<forall>l s so xs. queryOptions refLib l s so xs = Some xs)
   \<and> deleteUsersMe refLib deleteAlice world0 = (Reply 200 (Json (toJSON refLib alice)), world2)
   \<and> tasks world2 = filter (\<lambda>t. owner t \<noteq> uid alice) (tasks world0)
   \<and> users world2 = filter (\<lambda>x. uid x \<noteq> uid alice) (users world0)
   \<and> milk \<in> set (tasks world0) \<and> owner milk = uid alice
   \<and> handle refLib ambient0 GET_tasks_id foreignGet world2 = (Reply 404 NoBody, world2)
   \<and> handle refLib ambient0 GET_tasks foreignGet world2 = (Reply 200 (TaskList []), world2)
   \<and> milk \<notin> set (carried (fst (handle refLib ambient0 GET_tasks foreignGet world2)))"
proof -
  have acc: "auth refLib world0 deleteAlice = Inr (''secret.a'', alice)"
    by code_simp
  have q: "\<forall>l s so xs ys. queryOptions refLib l s so xs = Some ys \<longrightarrow> set ys \<subseteq> set xs"
    using refLib_queryOptions by simp
  have del: "deleteUsersMe refLib deleteAlice world0
               = (Reply 200 (Json (toJSON refLib alice)), world2)"
    by code_simp
  from account_deletion_cascades [OF acc q] obtain w' where
    r: "deleteUsersMe refLib deleteAlice world0 = (Reply 200 (Json (toJSON refLib alice)), w')"
    and t: "tasks w' = filter (\<lambda>t. owner t \<noteq> uid alice) (tasks world0)"
    and us: "users w' = filter (\<lambda>x. uid x \<noteq> uid alice) (users world0)"
    and no: "\<forall>a' r req'. \<forall>t \<in> set (carried (fst (handle refLib a' r req' w'))). owner t \<noteq> uid alice"
    by blast
  from r del have w': "w' = world2" by simp
  have m: "milk \<in> set (tasks world0)" by (simp add: world0_def)
  have o: "owner milk = uid alice" by (simp add: milk_def alice_def)
  have g1: "handle refLib ambient0 GET_tasks_id foreignGet world2 = (Reply 404 NoBody, world2)"
    by code_simp
  have g2: "handle refLib ambient0 GET_tasks foreignGet world2 = (Reply 200 (TaskList []), world2)"
    by code_simp
  from no o w' have "milk \<notin> set (carried (fst (handle refLib ambient0 GET_tasks foreignGet world2)))"
    by blast
  with acc refLib_queryOptions del t us w' m o g1 g2 show ?thesis by blast
qed

end
